theory Spec2Isabelle
  imports Complex_Main "HOL-Library.Sublist"
begin

section \<open>Strings\<close>

text \<open>
  A Python \<^verbatim>\<open>str\<close> is modelled by the list of its UTF-8 bytes, so that
  \<^verbatim>\<open>urllib.parse.quote\<close> (which percent-encodes the UTF-8 bytes) is a map over the
  list. \<^verbatim>\<open>str.strip()\<close> removes the code points for which \<^verbatim>\<open>str.isspace()\<close> holds;
  \<open>whitespace\<close> lists their encodings: U+0009..U+000D, U+001C..U+0020, U+0085, U+00A0,
  U+1680, U+2000..U+200A, U+2028, U+2029, U+202F, U+205F and U+3000. The strings of the
  model are the strings that have a UTF-8 encoding: one with a lone surrogate, on which
  \<^verbatim>\<open>quote\<close> and the write to the UTF-8 file raise \<^verbatim>\<open>UnicodeEncodeError\<close>, is not among
  them.
\<close>

definition whitespace :: "string list" where
  "whitespace =
    [[CHR 0x09], [CHR 0x0A], [CHR 0x0B], [CHR 0x0C], [CHR 0x0D],
     [CHR 0x1C], [CHR 0x1D], [CHR 0x1E], [CHR 0x1F], [CHR 0x20],
     [CHR 0xC2, CHR 0x85], [CHR 0xC2, CHR 0xA0],
     [CHR 0xE1, CHR 0x9A, CHR 0x80],
     [CHR 0xE2, CHR 0x80, CHR 0x80], [CHR 0xE2, CHR 0x80, CHR 0x81],
     [CHR 0xE2, CHR 0x80, CHR 0x82], [CHR 0xE2, CHR 0x80, CHR 0x83],
     [CHR 0xE2, CHR 0x80, CHR 0x84], [CHR 0xE2, CHR 0x80, CHR 0x85],
     [CHR 0xE2, CHR 0x80, CHR 0x86], [CHR 0xE2, CHR 0x80, CHR 0x87],
     [CHR 0xE2, CHR 0x80, CHR 0x88], [CHR 0xE2, CHR 0x80, CHR 0x89],
     [CHR 0xE2, CHR 0x80, CHR 0x8A],
     [CHR 0xE2, CHR 0x80, CHR 0xA8], [CHR 0xE2, CHR 0x80, CHR 0xA9],
     [CHR 0xE2, CHR 0x80, CHR 0xAF],
     [CHR 0xE2, CHR 0x81, CHR 0x9F],
     [CHR 0xE3, CHR 0x80, CHR 0x80]]"

text \<open>\<^verbatim>\<open>str.lstrip()\<close>: drop whitespace code points from the front until none is left.\<close>

function lstrip :: "string \<Rightarrow> string" where
  "lstrip s = (case find (\<lambda>w. prefix w s) whitespace of
                 None \<Rightarrow> s
               | Some w \<Rightarrow> lstrip (drop (length w) s))"
  by pat_completeness auto
termination
proof (relation "measure length")
  show "wf (measure length)" by simp
next
  fix s w
  assume "find (\<lambda>w. prefix w s) whitespace = Some w"
  then have "w \<in> set whitespace" and "prefix w s"
    by (auto simp: find_Some_iff)
  then have "w \<noteq> []" and "length w \<le> length s"
    by (auto simp: whitespace_def prefix_length_le)
  then show "(drop (length w) s, s) \<in> measure length"
    by (cases s) auto
qed

text \<open>\<^verbatim>\<open>str.rstrip()\<close>: the same from the back.\<close>

function rstrip :: "string \<Rightarrow> string" where
  "rstrip s = (case find (\<lambda>w. suffix w s) whitespace of
                 None \<Rightarrow> s
               | Some w \<Rightarrow> rstrip (take (length s - length w) s))"
  by pat_completeness auto
termination
proof (relation "measure length")
  show "wf (measure length)" by simp
next
  fix s w
  assume "find (\<lambda>w. suffix w s) whitespace = Some w"
  then have "w \<in> set whitespace" and "suffix w s"
    by (auto simp: find_Some_iff)
  then have "w \<noteq> []" and "length w \<le> length s"
    by (auto simp: whitespace_def suffix_length_le)
  then show "(take (length s - length w) s, s) \<in> measure length"
    by (cases s) auto
qed

declare lstrip.simps [simp del] rstrip.simps [simp del]

definition strip :: "string \<Rightarrow> string" where
  "strip s = rstrip (lstrip s)"

text \<open>
  \<^verbatim>\<open>urllib.parse.quote(s)\<close> with its default \<^verbatim>\<open>safe='/'\<close>: the bytes of the unreserved
  set (letters, digits, \<^verbatim>\<open>_.-~\<close>) and \<^verbatim>\<open>/\<close> are kept, every other byte \<open>b\<close> becomes
  \<^verbatim>\<open>'%{:02X}'.format(b)\<close>.
\<close>

definition always_safe :: string where
  "always_safe =
     ''ABCDEFGHIJKLMNOPQRSTUVWXYZabcdefghijklmnopqrstuvwxyz0123456789_.-~''"

definition hex_digit :: "nat \<Rightarrow> char" where
  "hex_digit n = ''0123456789ABCDEF'' ! (n mod 16)"

definition quote_byte :: "char \<Rightarrow> string" where
  "quote_byte c =
     (if c \<in> set (always_safe @ ''/'') then [c]
      else [CHR ''%'', hex_digit ((of_char c :: nat) div 16), hex_digit (of_char c)])"

definition quote :: "string \<Rightarrow> string" where
  "quote s = concat (map quote_byte s)"

text \<open>\<^verbatim>\<open>s.replace(' ', '_')\<close>.\<close>

definition replace_space :: "string \<Rightarrow> string" where
  "replace_space s = map (\<lambda>c. if c = CHR '' '' then CHR ''_'' else c) s"

section \<open>Decoded values\<close>

text \<open>
  The values \<^verbatim>\<open>r.json()\<close> delivers: \<^verbatim>\<open>None\<close>, booleans, numbers, strings, lists and
  dictionaries. A number, \<^verbatim>\<open>int\<close> or \<^verbatim>\<open>float\<close>, is given by its value (the program never
  computes with one: it only asks whether it is zero, and the floats that are not finite
  count like any other number that is not zero). Nothing in the source checks what
  kind of value a field holds, so the values of the fields \<^verbatim>\<open>title\<close>, \<^verbatim>\<open>extract\<close> and
  \<^verbatim>\<open>pageid\<close> travel through the program as they come.
\<close>

datatype json =
    JNull
  | JBool bool
  | JNum rat
  | JStr string
  | JArr "json list"
  | JObj "(string \<times> json) list"

text \<open>Python's truth value of a decoded value, as \<^verbatim>\<open>if title:\<close> and \<^verbatim>\<open>a or b\<close> test it.\<close>

fun truthy :: "json \<Rightarrow> bool" where
  "truthy JNull = False"
| "truthy (JBool b) = b"
| "truthy (JNum x) = (x \<noteq> 0)"
| "truthy (JStr s) = (s \<noteq> [])"
| "truthy (JArr xs) = (xs \<noteq> [])"
| "truthy (JObj kvs) = (kvs \<noteq> [])"

text \<open>\<^verbatim>\<open>a or b\<close>.\<close>

definition or_else :: "json \<Rightarrow> json \<Rightarrow> json" where
  "or_else a b = (if truthy a then a else b)"

text \<open>
  \<^verbatim>\<open>d.get(key, default)\<close> on a dictionary whose entry for the key is \<open>None\<close> when the key
  is absent; \<^verbatim>\<open>d.get(key)\<close> is \<open>dict_get field JNull\<close>. A key that is present with the
  value \<^verbatim>\<open>null\<close> gives \<^verbatim>\<open>None\<close>, not the default.
\<close>

definition dict_get :: "json option \<Rightarrow> json \<Rightarrow> json" where
  "dict_get field fallback = (case field of None \<Rightarrow> fallback | Some v \<Rightarrow> v)"

text \<open>The values \<^verbatim>\<open>len\<close> accepts; on the others it raises \<^verbatim>\<open>TypeError\<close>.\<close>

fun sized :: "json \<Rightarrow> bool" where
  "sized (JStr s) = True"
| "sized (JArr xs) = True"
| "sized (JObj kvs) = True"
| "sized v = False"

text \<open>
  The exceptions that reach \<open>fetch_and_write_ndjson\<close>: the three \<^verbatim>\<open>RuntimeError\<close>s of the
  retry loops, each with the query or title of its message, the \<^verbatim>\<open>AttributeError\<close> of
  \<^verbatim>\<open>title.replace\<close> on a value that is not a string, and the \<^verbatim>\<open>TypeError\<close> of \<^verbatim>\<open>len\<close>.
\<close>

datatype exn =
    ActionSearchFailed string
  | RestSearchFailed string
  | ExtractFailed json
  | AttributeError
  | TypeError

text \<open>
  \<^verbatim>\<open>
  def canonical_url(lang, title):
      return f"https://{lang}.wikipedia.org/wiki/{quote(title.replace(' ', '_'))}"
  \<close>
  Only a string has \<^verbatim>\<open>replace\<close>.
\<close>

definition canonical_url :: "string \<Rightarrow> json \<Rightarrow> exn + string" where
  "canonical_url lang title =
     (case title of
        JStr s \<Rightarrow> Inr (''https://'' @ lang @ ''.wikipedia.org/wiki/'' @ quote (replace_space s))
      | _ \<Rightarrow> Inl AttributeError)"

text \<open>
  The fields \<^verbatim>\<open>line\<close> and \<^verbatim>\<open>anchor\<close> of a section are taken to be strings, \<open>None\<close> for a
  key that is absent or \<^verbatim>\<open>null\<close> (both falsy like \<^verbatim>\<open>""\<close>). Any other value there would
  pass through \<^verbatim>\<open>str(name)\<close> inside the \<^verbatim>\<open>try\<close> and leave \<open>fetch_sections\<close> as a string all
  the same, so that, unlike a title or an extract, it cannot raise later.
  \<^verbatim>\<open>a or b\<close> on such a field:
\<close>

definition name_or :: "string option \<Rightarrow> string \<Rightarrow> string" where
  "name_or a b = (case a of None \<Rightarrow> b | Some s \<Rightarrow> if s \<noteq> [] then s else b)"

section \<open>Configuration\<close>

definition MAX_RETRIES :: nat where
  "MAX_RETRIES = 3"

definition DELAY_BETWEEN_REQUESTS :: rat where
  "DELAY_BETWEEN_REQUESTS = 1"

section \<open>The remote service and the world\<close>

text \<open>
  The four requests the program sends (\<^verbatim>\<open>SESSION.get(url, params=...)\<close>), each with the
  language edition and the query or title it asks about:
  \<^item> \<open>ActionSearch\<close>: \<^verbatim>\<open>/w/api.php?action=query&list=search&srsearch=...&srlimit=1\<close>;
  \<^item> \<open>RestSearch\<close>: \<^verbatim>\<open>/w/rest.php/v1/search/page?q=...&limit=1\<close>;
  \<^item> \<open>Extracts\<close>: \<^verbatim>\<open>/w/api.php?action=query&prop=extracts&redirects=1&titles=...\<close>;
  \<^item> \<open>ParseSections\<close>: \<^verbatim>\<open>/w/api.php?action=parse&prop=sections&page=...\<close>.
  The queries are strings; a title is whatever an earlier answer gave.
\<close>

datatype request =
    ActionSearch string string
  | RestSearch string string
  | Extracts string json
  | ParseSections string json

text \<open>
  What one pass through a \<^verbatim>\<open>try\<close> body sees: \<open>Raised\<close> when \<^verbatim>\<open>SESSION.get\<close>,
  \<^verbatim>\<open>raise_for_status\<close>, \<^verbatim>\<open>r.json()\<close> or a lookup in the decoded data raises (all of them
  end in the same \<^verbatim>\<open>except Exception\<close>), \<open>Decoded\<close> with the list the body reads otherwise:
  the hits of a search, the pages of an extract, the sections of an outline. Each entry
  is a dictionary, given by the keys the body looks up; \<open>None\<close> is a key that is absent.
\<close>

datatype 'a reply = Raised | Decoded 'a

datatype hit = Hit (hit_title: "json option")

datatype page =
  Page (page_extract: "json option") (page_title: "json option")
       (page_pageid: "json option")

datatype section_entry =
  Section (section_line: "string option") (section_anchor: "string option")

text \<open>
  The remote service answers a request depending on the language, the query or title and
  on when it is asked: the first argument is the number of requests the run has sent
  before this one, so a request that fails once may succeed when it is repeated.
\<close>

record remote =
  action_search :: "nat \<Rightarrow> string \<Rightarrow> string \<Rightarrow> hit list reply"
  rest_search :: "nat \<Rightarrow> string \<Rightarrow> string \<Rightarrow> hit list reply"
  extracts :: "nat \<Rightarrow> string \<Rightarrow> json \<Rightarrow> page list reply"
  parse_sections :: "nat \<Rightarrow> string \<Rightarrow> json \<Rightarrow> section_entry list reply"

text \<open>
  One line of \<^verbatim>\<open>data.txt\<close>: the object that \<^verbatim>\<open>json.dumps\<close> serialises, with the keys
  \<^verbatim>\<open>url\<close>, \<^verbatim>\<open>title\<close>, \<^verbatim>\<open>table_of_contents\<close> and \<^verbatim>\<open>raw_text\<close>.
\<close>

record article =
  obj_url :: string
  obj_title :: json
  obj_table_of_contents :: "string list"
  obj_raw_text :: json

datatype event = Get request | Sleep rat

text \<open>
  The state the program changes: the number of requests sent, the requests and the
  \<^verbatim>\<open>time.sleep\<close> calls in the order they happened, and the lines of \<^verbatim>\<open>data.txt\<close>.
  The text of the progress messages (\<^verbatim>\<open>print\<close>) is left out. A sleep is recorded with
  its duration in seconds as an exact rational: \<^verbatim>\<open>0.7 * attempt\<close> is seven tenths of the
  attempt number, without the rounding of the floating-point product.
\<close>

record world =
  clock :: nat
  trace :: "event list"
  data_txt :: "article list"

definition session_get :: "request \<Rightarrow> world \<Rightarrow> world" where
  "session_get r w = w\<lparr>clock := Suc (clock w), trace := trace w @ [Get r]\<rparr>"

definition time_sleep :: "rat \<Rightarrow> world \<Rightarrow> world" where
  "time_sleep d w = w\<lparr>trace := trace w @ [Sleep d]\<rparr>"

definition f_write :: "article \<Rightarrow> world \<Rightarrow> world" where
  "f_write obj w = w\<lparr>data_txt := data_txt w @ [obj]\<rparr>"

section \<open>Title resolution\<close>

text \<open>
  \<^verbatim>\<open>
  for attempt in range(1, MAX_RETRIES + 1):
      try:
          r = SESSION.get(url, params=params, timeout=REQUEST_TIMEOUT)
          r.raise_for_status()
          data = r.json()
          hits = data.get("query", {}).get("search", [])
          return hits[0].get("title") if hits else None
      except Exception as e:
          last_exc = e
          time.sleep(0.7 * attempt)
  raise RuntimeError(f"Action search failed for '{query}': {last_exc}")
  \<close>
  The loop is a recursion over the attempt numbers still to come.
\<close>

fun action_search_attempts ::
  "remote \<Rightarrow> string \<Rightarrow> string \<Rightarrow> nat list \<Rightarrow> world \<Rightarrow> (exn + json) \<times> world" where
  "action_search_attempts env query lang [] w = (Inl (ActionSearchFailed query), w)"
| "action_search_attempts env query lang (attempt # rest) w =
     (case action_search env (clock w) lang query of
        Decoded hits \<Rightarrow>
          (Inr (case hits of [] \<Rightarrow> JNull | h # _ \<Rightarrow> dict_get (hit_title h) JNull),
           session_get (ActionSearch lang query) w)
      | Raised \<Rightarrow>
          action_search_attempts env query lang rest
            (time_sleep (0.7 * of_nat attempt) (session_get (ActionSearch lang query) w)))"

definition resolve_title_action_search ::
  "remote \<Rightarrow> string \<Rightarrow> string \<Rightarrow> world \<Rightarrow> (exn + json) \<times> world" where
  "resolve_title_action_search env query lang w =
     action_search_attempts env query lang [1..<MAX_RETRIES + 1] w"

fun rest_search_attempts ::
  "remote \<Rightarrow> string \<Rightarrow> string \<Rightarrow> nat list \<Rightarrow> world \<Rightarrow> (exn + json) \<times> world" where
  "rest_search_attempts env query lang [] w = (Inl (RestSearchFailed query), w)"
| "rest_search_attempts env query lang (attempt # rest) w =
     (case rest_search env (clock w) lang query of
        Decoded pages \<Rightarrow>
          (Inr (case pages of [] \<Rightarrow> JNull | p # _ \<Rightarrow> dict_get (hit_title p) JNull),
           session_get (RestSearch lang query) w)
      | Raised \<Rightarrow>
          rest_search_attempts env query lang rest
            (time_sleep (0.7 * of_nat attempt) (session_get (RestSearch lang query) w)))"

definition resolve_title_rest_search ::
  "remote \<Rightarrow> string \<Rightarrow> string \<Rightarrow> world \<Rightarrow> (exn + json) \<times> world" where
  "resolve_title_rest_search env query lang w =
     rest_search_attempts env query lang [1..<MAX_RETRIES + 1] w"

text \<open>
  \<^verbatim>\<open>
  def resolve_title(query, lang):
      title = resolve_title_action_search(query, lang)
      if title:
          return title
      return resolve_title_rest_search(query, lang)
  \<close>
  An exception of the first call leaves the function at once.
\<close>

definition resolve_title ::
  "remote \<Rightarrow> string \<Rightarrow> string \<Rightarrow> world \<Rightarrow> (exn + json) \<times> world" where
  "resolve_title env query lang w =
     (case resolve_title_action_search env query lang w of
        (Inl e, w1) \<Rightarrow> (Inl e, w1)
      | (Inr title, w1) \<Rightarrow>
          if truthy title then (Inr title, w1)
          else resolve_title_rest_search env query lang w1)"

section \<open>Content and table of contents\<close>

text \<open>
  In \<open>fetch_plaintext_extract\<close> the \<^verbatim>\<open>try\<close> body is
  \<^verbatim>\<open>
  pages = data.get("query", {}).get("pages", [])
  if not pages:
      return "", title, None
  page = pages[0]
  text = page.get("extract") or ""
  norm_title = page.get("title", title)
  pageid = page.get("pageid")
  return text, norm_title, pageid
  \<close>
  and exhaustion ends in \<^verbatim>\<open>raise RuntimeError(f"Extract failed for '{title}': ...")\<close>.
\<close>

fun extract_attempts ::
  "remote \<Rightarrow> json \<Rightarrow> string \<Rightarrow> nat list \<Rightarrow> world \<Rightarrow>
     (exn + json \<times> json \<times> json) \<times> world" where
  "extract_attempts env title lang [] w = (Inl (ExtractFailed title), w)"
| "extract_attempts env title lang (attempt # rest) w =
     (case extracts env (clock w) lang title of
        Decoded pages \<Rightarrow>
          (case pages of
             [] \<Rightarrow> (Inr (JStr '''', title, JNull), session_get (Extracts lang title) w)
           | page # _ \<Rightarrow>
               (Inr (or_else (dict_get (page_extract page) JNull) (JStr ''''),
                     dict_get (page_title page) title,
                     dict_get (page_pageid page) JNull),
                session_get (Extracts lang title) w))
      | Raised \<Rightarrow>
          extract_attempts env title lang rest
            (time_sleep (0.7 * of_nat attempt) (session_get (Extracts lang title) w)))"

definition fetch_plaintext_extract ::
  "remote \<Rightarrow> json \<Rightarrow> string \<Rightarrow> world \<Rightarrow> (exn + json \<times> json \<times> json) \<times> world" where
  "fetch_plaintext_extract env title lang w =
     extract_attempts env title lang [1..<MAX_RETRIES + 1] w"

text \<open>
  The inner loop of \<open>fetch_sections\<close>, with the list \<open>toc\<close> it appends to
  (\<^verbatim>\<open>str\<close> of a string is the string):
  \<^verbatim>\<open>
  for s in sections:
      name = s.get("line") or s.get("anchor") or ""
      name = str(name).strip()
      if name:
          toc.append(name)
  \<close>
\<close>

fun collect_toc :: "section_entry list \<Rightarrow> string list \<Rightarrow> string list" where
  "collect_toc [] toc = toc"
| "collect_toc (s # sections) toc =
     (let name = name_or (section_line s) (name_or (section_anchor s) '''');
          name = strip name
      in if name \<noteq> [] then collect_toc sections (toc @ [name])
         else collect_toc sections toc)"

text \<open>
  \<open>fetch_sections\<close> has the same retry loop, but ends in \<^verbatim>\<open>return []\<close>. Its result is
  a sum like the others', so that the orchestrator's \<^verbatim>\<open>except\<close> around the call has
  a branch of its own.
\<close>

fun sections_attempts ::
  "remote \<Rightarrow> json \<Rightarrow> string \<Rightarrow> nat list \<Rightarrow> world \<Rightarrow> (exn + string list) \<times> world" where
  "sections_attempts env title lang [] w = (Inr [], w)"
| "sections_attempts env title lang (attempt # rest) w =
     (case parse_sections env (clock w) lang title of
        Decoded sections \<Rightarrow>
          (Inr (collect_toc sections []), session_get (ParseSections lang title) w)
      | Raised \<Rightarrow>
          sections_attempts env title lang rest
            (time_sleep (0.7 * of_nat attempt) (session_get (ParseSections lang title) w)))"

definition fetch_sections ::
  "remote \<Rightarrow> json \<Rightarrow> string \<Rightarrow> world \<Rightarrow> (exn + string list) \<times> world" where
  "fetch_sections env title lang w =
     sections_attempts env title lang [1..<MAX_RETRIES + 1] w"

section \<open>Fetch and write\<close>

text \<open>
  The body of the loop of \<open>fetch_and_write_ndjson\<close> for one stripped, non-empty query:
  \<^verbatim>\<open>
  try:
      resolved = resolve_title(query, lang)
  except Exception as e:
      resolved = None
  title = resolved or query
  text, norm_title, pageid = "", title, None
  try:
      text, norm_title, pageid = fetch_plaintext_extract(title, lang)
  except Exception as e:
      ...
  toc = []
  try:
      toc = fetch_sections(norm_title, lang)
  except Exception as e:
      ...
  obj = {"url": canonical_url(lang, norm_title), "title": norm_title,
         "table_of_contents": toc, "raw_text": text}
  f.write(json.dumps(obj, ensure_ascii=False) + "\n")
  print(f"  -> Wrote line for '{norm_title}' (chars={len(text)}, sections={len(toc)})")
  time.sleep(DELAY_BETWEEN_REQUESTS)
  \<close>
  The last four statements stand outside every \<^verbatim>\<open>try\<close>: an exception of \<open>canonical_url\<close>
  leaves the body before the line is written, one of \<^verbatim>\<open>len(text)\<close> after it and before
  the sleep. Either way the body returns the exception with the world as it is then.
\<close>

definition process_query ::
  "remote \<Rightarrow> string \<Rightarrow> string \<Rightarrow> world \<Rightarrow> (exn + unit) \<times> world" where
  "process_query env lang query w =
     (let (res, w1) = resolve_title env query lang w;
          resolved = (case res of Inl e \<Rightarrow> JNull | Inr t \<Rightarrow> t);
          title = or_else resolved (JStr query);
          (ext, w2) = fetch_plaintext_extract env title lang w1;
          (text, norm_title, pageid) =
             (case ext of Inl e \<Rightarrow> (JStr '''', title, JNull) | Inr v \<Rightarrow> v);
          (sec, w3) = fetch_sections env norm_title lang w2;
          toc = (case sec of Inl e \<Rightarrow> [] | Inr t \<Rightarrow> t)
      in case canonical_url lang norm_title of
           Inl e \<Rightarrow> (Inl e, w3)
         | Inr url \<Rightarrow>
             (let obj = \<lparr>obj_url = url, obj_title = norm_title,
                         obj_table_of_contents = toc, obj_raw_text = text\<rparr>;
                  w4 = f_write obj w3
              in if sized text then (Inr (), time_sleep DELAY_BETWEEN_REQUESTS w4)
                 else (Inl TypeError, w4)))"

text \<open>
  \<^verbatim>\<open>
  for idx in df.index:
      query = str(df.loc[idx, "Keyword"]).strip()
      if not query:
          continue
      ...
  \<close>
  The data frame is the list of its \<^verbatim>\<open>str(df.loc[idx, "Keyword"])\<close>, in index order. An
  exception of the body ends the loop, and with it the run.
\<close>

fun keyword_loop ::
  "remote \<Rightarrow> string \<Rightarrow> string list \<Rightarrow> world \<Rightarrow> (exn + unit) \<times> world" where
  "keyword_loop env lang [] w = (Inr (), w)"
| "keyword_loop env lang (keyword # df) w =
     (let query = strip keyword
      in if query = [] then keyword_loop env lang df w
         else (case process_query env lang query w of
                 (Inl e, w') \<Rightarrow> (Inl e, w')
               | (Inr u, w') \<Rightarrow> keyword_loop env lang df w'))"

text \<open>
  \<^verbatim>\<open>with out_path.open("w", encoding="utf-8") as f:\<close> empties \<^verbatim>\<open>data.txt\<close> before
  the loop starts.
\<close>

definition fetch_and_write_ndjson ::
  "remote \<Rightarrow> string list \<Rightarrow> string \<Rightarrow> world \<Rightarrow> (exn + unit) \<times> world" where
  "fetch_and_write_ndjson env df lang w = keyword_loop env lang df (w\<lparr>data_txt := []\<rparr>)"

section \<open>Observations used in the statements\<close>

text \<open>
  What a retry loop leaves in the trace for the attempts that failed: the request,
  then the sleep of \<^verbatim>\<open>0.7 * attempt\<close>, for each of them.
\<close>

definition backoff :: "request \<Rightarrow> nat list \<Rightarrow> event list" where
  "backoff r as = concat (map (\<lambda>attempt. [Get r, Sleep (0.7 * of_nat attempt)]) as)"

fun is_get :: "event \<Rightarrow> bool" where
  "is_get (Get r) = True"
| "is_get (Sleep d) = False"

fun is_rest_search :: "event \<Rightarrow> bool" where
  "is_rest_search (Get (RestSearch lang query)) = True"
| "is_rest_search e = False"

text \<open>
  A trace in which every sleep is directly followed by a request: sleeping happens
  between attempts only.
\<close>

fun sleeps_between_attempts :: "event list \<Rightarrow> bool" where
  "sleeps_between_attempts [] = True"
| "sleeps_between_attempts (Get r # es) = sleeps_between_attempts es"
| "sleeps_between_attempts (Sleep d # Get r # es) = sleeps_between_attempts es"
| "sleeps_between_attempts (Sleep d # es) = False"

text \<open>The lines a step from the world \<open>w\<close> to the world \<open>w'\<close> has added to \<^verbatim>\<open>data.txt\<close>.\<close>

definition lines_added :: "world \<Rightarrow> world \<Rightarrow> article list" where
  "lines_added w w' = drop (length (data_txt w)) (data_txt w')"

text \<open>
  The results of the three steps of \<open>process_query\<close>, as the loop body receives them,
  for one query and for the queries of a whole run (up to the query whose body raises,
  if one does).
\<close>

type_synonym results =
  "(exn + json) \<times> (exn + json \<times> json \<times> json) \<times> (exn + string list)"

definition step_results :: "remote \<Rightarrow> string \<Rightarrow> string \<Rightarrow> world \<Rightarrow> results" where
  "step_results env lang query w =
     (let (res, w1) = resolve_title env query lang w;
          resolved = (case res of Inl e \<Rightarrow> JNull | Inr t \<Rightarrow> t);
          title = or_else resolved (JStr query);
          (ext, w2) = fetch_plaintext_extract env title lang w1;
          (text, norm_title, pageid) =
             (case ext of Inl e \<Rightarrow> (JStr '''', title, JNull) | Inr v \<Rightarrow> v);
          (sec, w3) = fetch_sections env norm_title lang w2
      in (res, ext, sec))"

fun run_results :: "remote \<Rightarrow> string \<Rightarrow> string list \<Rightarrow> world \<Rightarrow> results list" where
  "run_results env lang [] w = []"
| "run_results env lang (keyword # df) w =
     (let query = strip keyword
      in if query = [] then run_results env lang df w
         else step_results env lang query w
                # (case process_query env lang query w of
                     (Inl e, w') \<Rightarrow> []
                   | (Inr u, w') \<Rightarrow> run_results env lang df w'))"

text \<open>
  The object the loop body builds from the results of its three steps, or the exception
  of \<open>canonical_url\<close>; and the lines that come of it.
\<close>

definition record_of :: "string \<Rightarrow> string \<Rightarrow> results \<Rightarrow> exn + article" where
  "record_of lang query r =
     (let (res, ext, sec) = r;
          resolved = (case res of Inl e \<Rightarrow> JNull | Inr t \<Rightarrow> t);
          title = or_else resolved (JStr query);
          (text, norm_title, pageid) =
             (case ext of Inl e \<Rightarrow> (JStr '''', title, JNull) | Inr v \<Rightarrow> v);
          toc = (case sec of Inl e \<Rightarrow> [] | Inr t \<Rightarrow> t)
      in case canonical_url lang norm_title of
           Inl e \<Rightarrow> Inl e
         | Inr url \<Rightarrow> Inr \<lparr>obj_url = url, obj_title = norm_title,
                           obj_table_of_contents = toc, obj_raw_text = text\<rparr>)"

definition written :: "exn + article \<Rightarrow> article list" where
  "written r = (case r of Inl e \<Rightarrow> [] | Inr obj \<Rightarrow> [obj])"

section \<open>Sample worlds and remote services\<close>

definition w0 :: world where
  "w0 = \<lparr>clock = 0, trace = [], data_txt = []\<rparr>"

text \<open>A service that is down: every request raises.\<close>

definition down :: remote where
  "down = \<lparr>action_search = (\<lambda>n lang query. Raised),
            rest_search = (\<lambda>n lang query. Raised),
            extracts = (\<lambda>n lang title. Raised),
            parse_sections = (\<lambda>n lang title. Raised)\<rparr>"

text \<open>
  A service that knows one article; its action search fails for the very first request
  of a run, and it has no outline for unknown titles.
\<close>

definition wiki :: remote where
  "wiki =
     \<lparr>action_search = (\<lambda>n lang query.
          if n = 0 then Raised
          else if query = ''Albert Einstein''
          then Decoded [Hit (Some (JStr ''Albert Einstein''))]
          else Decoded []),
      rest_search = (\<lambda>n lang query. Decoded []),
      extracts = (\<lambda>n lang title.
          if title = JStr ''Albert Einstein''
          then Decoded [Page (Some (JStr ''Albert Einstein was...''))
                          (Some (JStr ''Albert Einstein'')) (Some (JNum 736))]
          else Decoded []),
      parse_sections = (\<lambda>n lang title.
          if title = JStr ''Albert Einstein''
          then Decoded [Section (Some ''Early life'') (Some ''Early_life''),
                        Section None (Some '' Career ''),
                        Section (Some ''  '') (Some ''Notes'')]
          else Raised)\<rparr>"

text \<open>
  A service whose extract of the one article it knows carries \<^verbatim>\<open>"title": null\<close>; all
  its other answers are in order.
\<close>

definition null_title :: remote where
  "null_title =
     \<lparr>action_search = (\<lambda>n lang query.
          if query = ''Albert Einstein''
          then Decoded [Hit (Some (JStr ''Albert Einstein''))]
          else Decoded []),
      rest_search = (\<lambda>n lang query. Decoded []),
      extracts = (\<lambda>n lang title.
          if title = JStr ''Albert Einstein''
          then Decoded [Page (Some (JStr ''Albert Einstein was...'')) (Some JNull)
                          (Some (JNum 736))]
          else Decoded []),
      parse_sections = (\<lambda>n lang title. Decoded [])\<rparr>"

text \<open>
  A service whose extract of the one article it knows carries a number where the text
  should be; all its other answers are in order.
\<close>

definition numeric_extract :: remote where
  "numeric_extract =
     \<lparr>action_search = (\<lambda>n lang query.
          if query = ''Albert Einstein''
          then Decoded [Hit (Some (JStr ''Albert Einstein''))]
          else Decoded []),
      rest_search = (\<lambda>n lang query. Decoded []),
      extracts = (\<lambda>n lang title.
          if title = JStr ''Albert Einstein''
          then Decoded [Page (Some (JNum 5)) (Some (JStr ''Albert Einstein''))
                          (Some (JNum 736))]
          else Decoded []),
      parse_sections = (\<lambda>n lang title. Decoded [])\<rparr>"

section \<open>Properties of the string functions\<close>

lemma lstrip_no_whitespace: "find (\<lambda>w. prefix w (lstrip s)) whitespace = None"
proof (induction s rule: lstrip.induct)
  case (1 s)
  show ?case
  proof (cases "find (\<lambda>w. prefix w s) whitespace")
    case None
    then have "lstrip s = s" by (simp add: lstrip.simps)
    with None show ?thesis by simp
  next
    case (Some w)
    then have "lstrip s = lstrip (drop (length w) s)" by (simp add: lstrip.simps)
    with "1.IH" [OF Some] show ?thesis by simp
  qed
qed

lemma rstrip_no_whitespace: "find (\<lambda>w. suffix w (rstrip s)) whitespace = None"
proof (induction s rule: rstrip.induct)
  case (1 s)
  show ?case
  proof (cases "find (\<lambda>w. suffix w s) whitespace")
    case None
    then have "rstrip s = s" by (simp add: rstrip.simps)
    with None show ?thesis by simp
  next
    case (Some w)
    then have "rstrip s = rstrip (take (length s - length w) s)" by (simp add: rstrip.simps)
    with "1.IH" [OF Some] show ?thesis by simp
  qed
qed

lemma rstrip_prefix: "prefix (rstrip s) s"
proof (induction s rule: rstrip.induct)
  case (1 s)
  show ?case
  proof (cases "find (\<lambda>w. suffix w s) whitespace")
    case None
    then show ?thesis by (simp add: rstrip.simps)
  next
    case (Some w)
    then have eq: "rstrip s = rstrip (take (length s - length w) s)" by (simp add: rstrip.simps)
    have "prefix (rstrip (take (length s - length w) s)) (take (length s - length w) s)"
      by (rule "1.IH" [OF Some])
    also have "prefix (take (length s - length w) s) s" by (rule take_is_prefix)
    finally show ?thesis using eq by simp
  qed
qed

lemma strip_no_leading_whitespace: "find (\<lambda>w. prefix w (strip s)) whitespace = None"
proof -
  have "\<not> prefix w (strip s)" if "w \<in> set whitespace" for w
  proof
    assume "prefix w (strip s)"
    then have "prefix w (lstrip s)"
      using rstrip_prefix [of "lstrip s"] by (auto simp: strip_def)
    with that lstrip_no_whitespace [of s] show False by (auto simp: find_None_iff)
  qed
  then show ?thesis by (auto simp: find_None_iff)
qed

lemma strip_no_trailing_whitespace: "find (\<lambda>w. suffix w (strip s)) whitespace = None"
  by (simp add: strip_def rstrip_no_whitespace)

lemma strip_strip: "strip (strip s) = strip s"
proof -
  have "lstrip (strip s) = strip s"
    by (subst lstrip.simps) (simp add: strip_no_leading_whitespace)
  moreover have "rstrip (strip s) = strip s"
    by (subst rstrip.simps) (simp add: strip_no_trailing_whitespace)
  ultimately show ?thesis by (simp add: strip_def [of "strip s"])
qed

lemma strip_Nil: "strip [] = []"
  by code_simp





section \<open>The retry loops\<close>

lemma backoff_Nil [simp]: "backoff r [] = []"
  by (simp add: backoff_def)

lemma backoff_Cons [simp]:
  "backoff r (a # as) = Get r # Sleep (0.7 * of_nat a) # backoff r as"
  by (simp add: backoff_def)

text \<open>Either every one of \<open>n\<close> replies is an exception, or there is a first that is not.\<close>

lemma first_decoded:
  fixes f :: "nat \<Rightarrow> 'a reply"
  shows "(\<forall>i<n. f i = Raised) \<or>
         (\<exists>k<n. (\<forall>i<k. f i = Raised) \<and> (\<exists>p. f k = Decoded p))"
proof (induction n)
  case 0
  then show ?case by simp
next
  case (Suc n)
  then show ?case
  proof
    assume all: "\<forall>i<n. f i = Raised"
    show ?thesis
    proof (cases "f n")
      case Raised
      with all have "\<forall>i<Suc n. f i = Raised"
        by (simp add: less_Suc_eq)
      then show ?thesis ..
    next
      case (Decoded p)
      with all show ?thesis by blast
    qed
  next
    assume "\<exists>k<n. (\<forall>i<k. f i = Raised) \<and> (\<exists>p. f k = Decoded p)"
    then show ?thesis using less_Suc_eq by blast
  qed
qed

lemma action_search_attempts_exhausted:
  "\<forall>i<length as. action_search env (clock w + i) lang query = Raised \<Longrightarrow>
   action_search_attempts env query lang as w =
     (Inl (ActionSearchFailed query),
      w\<lparr>clock := clock w + length as,
        trace := trace w @ backoff (ActionSearch lang query) as\<rparr>)"
proof (induction as arbitrary: w)
  case Nil
  then show ?case by simp
next
  case (Cons a as)
  let ?w = "time_sleep (0.7 * of_nat a) (session_get (ActionSearch lang query) w)"
  from Cons.prems have here: "action_search env (clock w) lang query = Raised"
    by auto
  from Cons.prems have "\<forall>i<length as. action_search env (clock w + Suc i) lang query = Raised"
    by auto
  then have "\<forall>i<length as. action_search env (clock ?w + i) lang query = Raised"
    by (simp add: time_sleep_def session_get_def)
  from Cons.IH [OF this] here show ?case
    by (simp add: time_sleep_def session_get_def)
qed

lemma action_search_attempts_decoded:
  "k < length as \<Longrightarrow>
   \<forall>i<k. action_search env (clock w + i) lang query = Raised \<Longrightarrow>
   action_search env (clock w + k) lang query = Decoded hits \<Longrightarrow>
   action_search_attempts env query lang as w =
     (Inr (case hits of [] \<Rightarrow> JNull | h # _ \<Rightarrow> dict_get (hit_title h) JNull),
      w\<lparr>clock := clock w + Suc k,
        trace := trace w @ backoff (ActionSearch lang query) (take k as)
                   @ [Get (ActionSearch lang query)]\<rparr>)"
proof (induction as arbitrary: w k)
  case Nil
  then show ?case by simp
next
  case (Cons a as)
  show ?case
  proof (cases k)
    case 0
    with Cons.prems show ?thesis
      by (simp add: session_get_def split: list.split)
  next
    case (Suc j)
    let ?w = "time_sleep (0.7 * of_nat a) (session_get (ActionSearch lang query) w)"
    from Cons.prems Suc have here: "action_search env (clock w) lang query = Raised"
      by auto
    from Cons.prems Suc have j: "j < length as"
      by simp
    from Cons.prems Suc
    have "\<forall>i<j. action_search env (clock w + Suc i) lang query = Raised"
      by auto
    then have before: "\<forall>i<j. action_search env (clock ?w + i) lang query = Raised"
      by (simp add: time_sleep_def session_get_def)
    from Cons.prems Suc
    have at: "action_search env (clock ?w + j) lang query = Decoded hits"
      by (simp add: time_sleep_def session_get_def)
    from Cons.IH [OF j before at] here Suc show ?thesis
      by (simp add: time_sleep_def session_get_def)
  qed
qed

lemma resolve_title_action_search_cases:
  obtains (exhausted)
    "\<forall>i<MAX_RETRIES. action_search env (clock w + i) lang query = Raised"
    "resolve_title_action_search env query lang w =
       (Inl (ActionSearchFailed query),
        w\<lparr>clock := clock w + MAX_RETRIES,
          trace := trace w @ backoff (ActionSearch lang query) [1..<MAX_RETRIES + 1]\<rparr>)"
  | (decoded) k hits where
    "k < MAX_RETRIES"
    "\<forall>i<k. action_search env (clock w + i) lang query = Raised"
    "action_search env (clock w + k) lang query = Decoded hits"
    "resolve_title_action_search env query lang w =
       (Inr (case hits of [] \<Rightarrow> JNull | h # _ \<Rightarrow> dict_get (hit_title h) JNull),
        w\<lparr>clock := clock w + Suc k,
          trace := trace w @ backoff (ActionSearch lang query) [1..<k + 1]
                     @ [Get (ActionSearch lang query)]\<rparr>)"
proof -
  from first_decoded [of MAX_RETRIES "\<lambda>i. action_search env (clock w + i) lang query"]
  consider "\<forall>i<MAX_RETRIES. action_search env (clock w + i) lang query = Raised"
    | k hits where "k < MAX_RETRIES"
        "\<forall>i<k. action_search env (clock w + i) lang query = Raised"
        "action_search env (clock w + k) lang query = Decoded hits"
    by blast
  then show thesis
  proof cases
    case 1
    then have "\<forall>i<length [1..<MAX_RETRIES + 1].
                 action_search env (clock w + i) lang query = Raised"
      by simp
    from action_search_attempts_exhausted [OF this] 1 show thesis
      by (intro exhausted) (simp_all add: resolve_title_action_search_def)
  next
    case 2
    from 2(1) have len: "k < length [1..<MAX_RETRIES + 1]"
      by simp
    from 2(1) have "take k [1..<MAX_RETRIES + 1] = [1..<k + 1]"
      by (simp add: take_upt)
    with action_search_attempts_decoded [OF len 2(2) 2(3)] 2 show thesis
      by (intro decoded [of k hits]) (simp_all add: resolve_title_action_search_def)
  qed
qed

lemma rest_search_attempts_exhausted:
  "\<forall>i<length as. rest_search env (clock w + i) lang query = Raised \<Longrightarrow>
   rest_search_attempts env query lang as w =
     (Inl (RestSearchFailed query),
      w\<lparr>clock := clock w + length as,
        trace := trace w @ backoff (RestSearch lang query) as\<rparr>)"
proof (induction as arbitrary: w)
  case Nil
  then show ?case by simp
next
  case (Cons a as)
  let ?w = "time_sleep (0.7 * of_nat a) (session_get (RestSearch lang query) w)"
  from Cons.prems have here: "rest_search env (clock w) lang query = Raised"
    by auto
  from Cons.prems have "\<forall>i<length as. rest_search env (clock w + Suc i) lang query = Raised"
    by auto
  then have "\<forall>i<length as. rest_search env (clock ?w + i) lang query = Raised"
    by (simp add: time_sleep_def session_get_def)
  from Cons.IH [OF this] here show ?case
    by (simp add: time_sleep_def session_get_def)
qed

lemma rest_search_attempts_decoded:
  "k < length as \<Longrightarrow>
   \<forall>i<k. rest_search env (clock w + i) lang query = Raised \<Longrightarrow>
   rest_search env (clock w + k) lang query = Decoded pages \<Longrightarrow>
   rest_search_attempts env query lang as w =
     (Inr (case pages of [] \<Rightarrow> JNull | p # _ \<Rightarrow> dict_get (hit_title p) JNull),
      w\<lparr>clock := clock w + Suc k,
        trace := trace w @ backoff (RestSearch lang query) (take k as)
                   @ [Get (RestSearch lang query)]\<rparr>)"
proof (induction as arbitrary: w k)
  case Nil
  then show ?case by simp
next
  case (Cons a as)
  show ?case
  proof (cases k)
    case 0
    with Cons.prems show ?thesis
      by (simp add: session_get_def split: list.split)
  next
    case (Suc j)
    let ?w = "time_sleep (0.7 * of_nat a) (session_get (RestSearch lang query) w)"
    from Cons.prems Suc have here: "rest_search env (clock w) lang query = Raised"
      by auto
    from Cons.prems Suc have j: "j < length as"
      by simp
    from Cons.prems Suc
    have "\<forall>i<j. rest_search env (clock w + Suc i) lang query = Raised"
      by auto
    then have before: "\<forall>i<j. rest_search env (clock ?w + i) lang query = Raised"
      by (simp add: time_sleep_def session_get_def)
    from Cons.prems Suc
    have at: "rest_search env (clock ?w + j) lang query = Decoded pages"
      by (simp add: time_sleep_def session_get_def)
    from Cons.IH [OF j before at] here Suc show ?thesis
      by (simp add: time_sleep_def session_get_def)
  qed
qed

lemma resolve_title_rest_search_cases:
  obtains (exhausted)
    "\<forall>i<MAX_RETRIES. rest_search env (clock w + i) lang query = Raised"
    "resolve_title_rest_search env query lang w =
       (Inl (RestSearchFailed query),
        w\<lparr>clock := clock w + MAX_RETRIES,
          trace := trace w @ backoff (RestSearch lang query) [1..<MAX_RETRIES + 1]\<rparr>)"
  | (decoded) k pages where
    "k < MAX_RETRIES"
    "\<forall>i<k. rest_search env (clock w + i) lang query = Raised"
    "rest_search env (clock w + k) lang query = Decoded pages"
    "resolve_title_rest_search env query lang w =
       (Inr (case pages of [] \<Rightarrow> JNull | p # _ \<Rightarrow> dict_get (hit_title p) JNull),
        w\<lparr>clock := clock w + Suc k,
          trace := trace w @ backoff (RestSearch lang query) [1..<k + 1]
                     @ [Get (RestSearch lang query)]\<rparr>)"
proof -
  from first_decoded [of MAX_RETRIES "\<lambda>i. rest_search env (clock w + i) lang query"]
  consider "\<forall>i<MAX_RETRIES. rest_search env (clock w + i) lang query = Raised"
    | k pages where "k < MAX_RETRIES"
        "\<forall>i<k. rest_search env (clock w + i) lang query = Raised"
        "rest_search env (clock w + k) lang query = Decoded pages"
    by blast
  then show thesis
  proof cases
    case 1
    then have "\<forall>i<length [1..<MAX_RETRIES + 1].
                 rest_search env (clock w + i) lang query = Raised"
      by simp
    from rest_search_attempts_exhausted [OF this] 1 show thesis
      by (intro exhausted) (simp_all add: resolve_title_rest_search_def)
  next
    case 2
    from 2(1) have len: "k < length [1..<MAX_RETRIES + 1]"
      by simp
    from 2(1) have "take k [1..<MAX_RETRIES + 1] = [1..<k + 1]"
      by (simp add: take_upt)
    with rest_search_attempts_decoded [OF len 2(2) 2(3)] 2 show thesis
      by (intro decoded [of k pages]) (simp_all add: resolve_title_rest_search_def)
  qed
qed

lemma extract_attempts_exhausted:
  "\<forall>i<length as. extracts env (clock w + i) lang title = Raised \<Longrightarrow>
   extract_attempts env title lang as w =
     (Inl (ExtractFailed title),
      w\<lparr>clock := clock w + length as,
        trace := trace w @ backoff (Extracts lang title) as\<rparr>)"
proof (induction as arbitrary: w)
  case Nil
  then show ?case by simp
next
  case (Cons a as)
  let ?w = "time_sleep (0.7 * of_nat a) (session_get (Extracts lang title) w)"
  from Cons.prems have here: "extracts env (clock w) lang title = Raised"
    by auto
  from Cons.prems have "\<forall>i<length as. extracts env (clock w + Suc i) lang title = Raised"
    by auto
  then have "\<forall>i<length as. extracts env (clock ?w + i) lang title = Raised"
    by (simp add: time_sleep_def session_get_def)
  from Cons.IH [OF this] here show ?case
    by (simp add: time_sleep_def session_get_def)
qed

lemma extract_attempts_decoded:
  "k < length as \<Longrightarrow>
   \<forall>i<k. extracts env (clock w + i) lang title = Raised \<Longrightarrow>
   extracts env (clock w + k) lang title = Decoded pages \<Longrightarrow>
   extract_attempts env title lang as w =
     (case pages of
          [] \<Rightarrow> Inr (JStr '''', title, JNull)
        | page # _ \<Rightarrow>
            Inr (or_else (dict_get (page_extract page) JNull) (JStr ''''),
                 dict_get (page_title page) title,
                 dict_get (page_pageid page) JNull),
      w\<lparr>clock := clock w + Suc k,
        trace := trace w @ backoff (Extracts lang title) (take k as)
                   @ [Get (Extracts lang title)]\<rparr>)"
proof (induction as arbitrary: w k)
  case Nil
  then show ?case by simp
next
  case (Cons a as)
  show ?case
  proof (cases k)
    case 0
    with Cons.prems show ?thesis
      by (simp add: session_get_def split: list.split)
  next
    case (Suc j)
    let ?w = "time_sleep (0.7 * of_nat a) (session_get (Extracts lang title) w)"
    from Cons.prems Suc have here: "extracts env (clock w) lang title = Raised"
      by auto
    from Cons.prems Suc have j: "j < length as"
      by simp
    from Cons.prems Suc
    have "\<forall>i<j. extracts env (clock w + Suc i) lang title = Raised"
      by auto
    then have before: "\<forall>i<j. extracts env (clock ?w + i) lang title = Raised"
      by (simp add: time_sleep_def session_get_def)
    from Cons.prems Suc
    have at: "extracts env (clock ?w + j) lang title = Decoded pages"
      by (simp add: time_sleep_def session_get_def)
    from Cons.IH [OF j before at] here Suc show ?thesis
      by (simp add: time_sleep_def session_get_def)
  qed
qed

lemma fetch_plaintext_extract_cases:
  obtains (exhausted)
    "\<forall>i<MAX_RETRIES. extracts env (clock w + i) lang title = Raised"
    "fetch_plaintext_extract env title lang w =
       (Inl (ExtractFailed title),
        w\<lparr>clock := clock w + MAX_RETRIES,
          trace := trace w @ backoff (Extracts lang title) [1..<MAX_RETRIES + 1]\<rparr>)"
  | (decoded) k pages where
    "k < MAX_RETRIES"
    "\<forall>i<k. extracts env (clock w + i) lang title = Raised"
    "extracts env (clock w + k) lang title = Decoded pages"
    "fetch_plaintext_extract env title lang w =
       (case pages of
          [] \<Rightarrow> Inr (JStr '''', title, JNull)
        | page # _ \<Rightarrow>
            Inr (or_else (dict_get (page_extract page) JNull) (JStr ''''),
                 dict_get (page_title page) title,
                 dict_get (page_pageid page) JNull),
        w\<lparr>clock := clock w + Suc k,
          trace := trace w @ backoff (Extracts lang title) [1..<k + 1]
                     @ [Get (Extracts lang title)]\<rparr>)"
proof -
  from first_decoded [of MAX_RETRIES "\<lambda>i. extracts env (clock w + i) lang title"]
  consider "\<forall>i<MAX_RETRIES. extracts env (clock w + i) lang title = Raised"
    | k pages where "k < MAX_RETRIES"
        "\<forall>i<k. extracts env (clock w + i) lang title = Raised"
        "extracts env (clock w + k) lang title = Decoded pages"
    by blast
  then show thesis
  proof cases
    case 1
    then have "\<forall>i<length [1..<MAX_RETRIES + 1].
                 extracts env (clock w + i) lang title = Raised"
      by simp
    from extract_attempts_exhausted [OF this] 1 show thesis
      by (intro exhausted) (simp_all add: fetch_plaintext_extract_def)
  next
    case 2
    from 2(1) have len: "k < length [1..<MAX_RETRIES + 1]"
      by simp
    from 2(1) have "take k [1..<MAX_RETRIES + 1] = [1..<k + 1]"
      by (simp add: take_upt)
    with extract_attempts_decoded [OF len 2(2) 2(3)] 2 show thesis
      by (intro decoded [of k pages]) (simp_all add: fetch_plaintext_extract_def)
  qed
qed

lemma sections_attempts_exhausted:
  "\<forall>i<length as. parse_sections env (clock w + i) lang title = Raised \<Longrightarrow>
   sections_attempts env title lang as w =
     (Inr [],
      w\<lparr>clock := clock w + length as,
        trace := trace w @ backoff (ParseSections lang title) as\<rparr>)"
proof (induction as arbitrary: w)
  case Nil
  then show ?case by simp
next
  case (Cons a as)
  let ?w = "time_sleep (0.7 * of_nat a) (session_get (ParseSections lang title) w)"
  from Cons.prems have here: "parse_sections env (clock w) lang title = Raised"
    by auto
  from Cons.prems have "\<forall>i<length as. parse_sections env (clock w + Suc i) lang title = Raised"
    by auto
  then have "\<forall>i<length as. parse_sections env (clock ?w + i) lang title = Raised"
    by (simp add: time_sleep_def session_get_def)
  from Cons.IH [OF this] here show ?case
    by (simp add: time_sleep_def session_get_def)
qed

lemma sections_attempts_decoded:
  "k < length as \<Longrightarrow>
   \<forall>i<k. parse_sections env (clock w + i) lang title = Raised \<Longrightarrow>
   parse_sections env (clock w + k) lang title = Decoded sections \<Longrightarrow>
   sections_attempts env title lang as w =
     (Inr (collect_toc sections []),
      w\<lparr>clock := clock w + Suc k,
        trace := trace w @ backoff (ParseSections lang title) (take k as)
                   @ [Get (ParseSections lang title)]\<rparr>)"
proof (induction as arbitrary: w k)
  case Nil
  then show ?case by simp
next
  case (Cons a as)
  show ?case
  proof (cases k)
    case 0
    with Cons.prems show ?thesis
      by (simp add: session_get_def split: list.split)
  next
    case (Suc j)
    let ?w = "time_sleep (0.7 * of_nat a) (session_get (ParseSections lang title) w)"
    from Cons.prems Suc have here: "parse_sections env (clock w) lang title = Raised"
      by auto
    from Cons.prems Suc have j: "j < length as"
      by simp
    from Cons.prems Suc
    have "\<forall>i<j. parse_sections env (clock w + Suc i) lang title = Raised"
      by auto
    then have before: "\<forall>i<j. parse_sections env (clock ?w + i) lang title = Raised"
      by (simp add: time_sleep_def session_get_def)
    from Cons.prems Suc
    have at: "parse_sections env (clock ?w + j) lang title = Decoded sections"
      by (simp add: time_sleep_def session_get_def)
    from Cons.IH [OF j before at] here Suc show ?thesis
      by (simp add: time_sleep_def session_get_def)
  qed
qed

lemma fetch_sections_cases:
  obtains (exhausted)
    "\<forall>i<MAX_RETRIES. parse_sections env (clock w + i) lang title = Raised"
    "fetch_sections env title lang w =
       (Inr [],
        w\<lparr>clock := clock w + MAX_RETRIES,
          trace := trace w @ backoff (ParseSections lang title) [1..<MAX_RETRIES + 1]\<rparr>)"
  | (decoded) k sections where
    "k < MAX_RETRIES"
    "\<forall>i<k. parse_sections env (clock w + i) lang title = Raised"
    "parse_sections env (clock w + k) lang title = Decoded sections"
    "fetch_sections env title lang w =
       (Inr (collect_toc sections []),
        w\<lparr>clock := clock w + Suc k,
          trace := trace w @ backoff (ParseSections lang title) [1..<k + 1]
                     @ [Get (ParseSections lang title)]\<rparr>)"
proof -
  from first_decoded [of MAX_RETRIES "\<lambda>i. parse_sections env (clock w + i) lang title"]
  consider "\<forall>i<MAX_RETRIES. parse_sections env (clock w + i) lang title = Raised"
    | k sections where "k < MAX_RETRIES"
        "\<forall>i<k. parse_sections env (clock w + i) lang title = Raised"
        "parse_sections env (clock w + k) lang title = Decoded sections"
    by blast
  then show thesis
  proof cases
    case 1
    then have "\<forall>i<length [1..<MAX_RETRIES + 1].
                 parse_sections env (clock w + i) lang title = Raised"
      by simp
    from sections_attempts_exhausted [OF this] 1 show thesis
      by (intro exhausted) (simp_all add: fetch_sections_def)
  next
    case 2
    from 2(1) have len: "k < length [1..<MAX_RETRIES + 1]"
      by simp
    from 2(1) have "take k [1..<MAX_RETRIES + 1] = [1..<k + 1]"
      by (simp add: take_upt)
    with sections_attempts_decoded [OF len 2(2) 2(3)] 2 show thesis
      by (intro decoded [of k sections]) (simp_all add: fetch_sections_def)
  qed
qed

lemma filter_is_get_backoff: "length (filter is_get (backoff r as)) = length as"
  by (induction as) simp_all

lemma resolve_title_action_search_trace:
  "\<exists>n evs. n \<le> MAX_RETRIES \<and>
     list_all (\<lambda>i. action_search env (clock w + i) lang query = Raised) [0..<n] \<and>
     (n = MAX_RETRIES \<or> (\<exists>p. action_search env (clock w + n) lang query = Decoded p)) \<and>
     evs = backoff (ActionSearch lang query) [1..<n + 1]
             @ (if n < MAX_RETRIES then [Get (ActionSearch lang query)] else []) \<and>
     trace (snd (resolve_title_action_search env query lang w)) = trace w @ evs \<and>
     length (filter is_get evs) \<le> MAX_RETRIES"
proof (cases rule: resolve_title_action_search_cases [of env w lang query])
  case exhausted
  then show ?thesis
    by (intro exI [of _ MAX_RETRIES]) (simp add: filter_is_get_backoff list_all_iff)
next
  case (decoded k hits)
  then show ?thesis
    by (intro exI [of _ k]) (simp add: filter_is_get_backoff list_all_iff)
qed

lemma resolve_title_rest_search_trace:
  "\<exists>n evs. n \<le> MAX_RETRIES \<and>
     list_all (\<lambda>i. rest_search env (clock w + i) lang query = Raised) [0..<n] \<and>
     (n = MAX_RETRIES \<or> (\<exists>p. rest_search env (clock w + n) lang query = Decoded p)) \<and>
     evs = backoff (RestSearch lang query) [1..<n + 1]
             @ (if n < MAX_RETRIES then [Get (RestSearch lang query)] else []) \<and>
     trace (snd (resolve_title_rest_search env query lang w)) = trace w @ evs \<and>
     length (filter is_get evs) \<le> MAX_RETRIES"
proof (cases rule: resolve_title_rest_search_cases [of env w lang query])
  case exhausted
  then show ?thesis
    by (intro exI [of _ MAX_RETRIES]) (simp add: filter_is_get_backoff list_all_iff)
next
  case (decoded k pages)
  then show ?thesis
    by (intro exI [of _ k]) (simp add: filter_is_get_backoff list_all_iff)
qed

lemma fetch_plaintext_extract_trace:
  "\<exists>n evs. n \<le> MAX_RETRIES \<and>
     list_all (\<lambda>i. extracts env (clock w + i) lang title = Raised) [0..<n] \<and>
     (n = MAX_RETRIES \<or> (\<exists>p. extracts env (clock w + n) lang title = Decoded p)) \<and>
     evs = backoff (Extracts lang title) [1..<n + 1]
             @ (if n < MAX_RETRIES then [Get (Extracts lang title)] else []) \<and>
     trace (snd (fetch_plaintext_extract env title lang w)) = trace w @ evs \<and>
     length (filter is_get evs) \<le> MAX_RETRIES"
proof (cases rule: fetch_plaintext_extract_cases [of env w lang title])
  case exhausted
  then show ?thesis
    by (intro exI [of _ MAX_RETRIES]) (simp add: filter_is_get_backoff list_all_iff)
next
  case (decoded k pages)
  then show ?thesis
    by (intro exI [of _ k]) (simp add: filter_is_get_backoff list_all_iff)
qed

lemma fetch_sections_trace:
  "\<exists>n evs. n \<le> MAX_RETRIES \<and>
     list_all (\<lambda>i. parse_sections env (clock w + i) lang title = Raised) [0..<n] \<and>
     (n = MAX_RETRIES \<or> (\<exists>p. parse_sections env (clock w + n) lang title = Decoded p)) \<and>
     evs = backoff (ParseSections lang title) [1..<n + 1]
             @ (if n < MAX_RETRIES then [Get (ParseSections lang title)] else []) \<and>
     trace (snd (fetch_sections env title lang w)) = trace w @ evs \<and>
     length (filter is_get evs) \<le> MAX_RETRIES"
proof (cases rule: fetch_sections_cases [of env w lang title])
  case exhausted
  then show ?thesis
    by (intro exI [of _ MAX_RETRIES]) (simp add: filter_is_get_backoff list_all_iff)
next
  case (decoded k sections)
  then show ?thesis
    by (intro exI [of _ k]) (simp add: filter_is_get_backoff list_all_iff)
qed

text \<open>
  C7, as amended. Each search strategy and each fetcher makes at most \<open>MAX_RETRIES\<close>
  attempts per call and sleeps for \<open>0.7 * attempt\<close> after every attempt that failed, the
  last one included: with \<open>n \<le> MAX_RETRIES\<close> the number of attempts that fail before one
  returns (or before the ceiling is reached), the events of a call are these \<open>n\<close> attempts,
  each followed by its sleep, and one more attempt (the one that returns) exactly when
  \<open>n < MAX_RETRIES\<close>.
\<close>

theorem retry_ceiling_and_backoff:
  "(\<exists>n evs. n \<le> MAX_RETRIES \<and>
      list_all (\<lambda>i. action_search env (clock w + i) lang query = Raised) [0..<n] \<and>
      (n = MAX_RETRIES \<or> (\<exists>p. action_search env (clock w + n) lang query = Decoded p)) \<and>
      evs = backoff (ActionSearch lang query) [1..<n + 1]
              @ (if n < MAX_RETRIES then [Get (ActionSearch lang query)] else []) \<and>
      trace (snd (resolve_title_action_search env query lang w)) = trace w @ evs \<and>
      length (filter is_get evs) \<le> MAX_RETRIES) \<and>
   (\<exists>n evs. n \<le> MAX_RETRIES \<and>
      list_all (\<lambda>i. rest_search env (clock w + i) lang query = Raised) [0..<n] \<and>
      (n = MAX_RETRIES \<or> (\<exists>p. rest_search env (clock w + n) lang query = Decoded p)) \<and>
      evs = backoff (RestSearch lang query) [1..<n + 1]
              @ (if n < MAX_RETRIES then [Get (RestSearch lang query)] else []) \<and>
      trace (snd (resolve_title_rest_search env query lang w)) = trace w @ evs \<and>
      length (filter is_get evs) \<le> MAX_RETRIES) \<and>
   (\<exists>n evs. n \<le> MAX_RETRIES \<and>
      list_all (\<lambda>i. extracts env (clock w + i) lang title = Raised) [0..<n] \<and>
      (n = MAX_RETRIES \<or> (\<exists>p. extracts env (clock w + n) lang title = Decoded p)) \<and>
      evs = backoff (Extracts lang title) [1..<n + 1]
              @ (if n < MAX_RETRIES then [Get (Extracts lang title)] else []) \<and>
      trace (snd (fetch_plaintext_extract env title lang w)) = trace w @ evs \<and>
      length (filter is_get evs) \<le> MAX_RETRIES) \<and>
   (\<exists>n evs. n \<le> MAX_RETRIES \<and>
      list_all (\<lambda>i. parse_sections env (clock w + i) lang title = Raised) [0..<n] \<and>
      (n = MAX_RETRIES \<or> (\<exists>p. parse_sections env (clock w + n) lang title = Decoded p)) \<and>
      evs = backoff (ParseSections lang title) [1..<n + 1]
              @ (if n < MAX_RETRIES then [Get (ParseSections lang title)] else []) \<and>
      trace (snd (fetch_sections env title lang w)) = trace w @ evs \<and>
      length (filter is_get evs) \<le> MAX_RETRIES)"
  by (intro conjI resolve_title_action_search_trace resolve_title_rest_search_trace
        fetch_plaintext_extract_trace fetch_sections_trace)

text \<open>
  C7 as stated fails: when the service is down, the third and last attempt of the
  action search is followed by a sleep although no attempt follows it.
\<close>

theorem sleep_after_last_attempt_counterexample:
  "\<not> sleeps_between_attempts
       (trace (snd (resolve_title_action_search down ''zzzz'' ''en'' w0)))"
  by (simp add: resolve_title_action_search_def MAX_RETRIES_def down_def w0_def upt_rec
        session_get_def time_sleep_def)

section \<open>Sample runs\<close>

text \<open>
  The functions evaluated on the sample services, for use where a statement is shown at
  a concrete input.
\<close>

lemma strip_samples:
  "strip '' Albert Einstein '' = ''Albert Einstein''"
  "strip ''Albert Einstein'' = ''Albert Einstein''"
  "strip ''   '' = ''''"
  "strip ''zzzz'' = ''zzzz''"
  "strip ''Early life'' = ''Early life''"
  "strip '' Career '' = ''Career''"
  "strip ''  '' = ''''"
  by code_simp+

lemmas run_defs =
  fetch_and_write_ndjson_def process_query_def step_results_def resolve_title_def
  resolve_title_action_search_def resolve_title_rest_search_def fetch_plaintext_extract_def
  fetch_sections_def MAX_RETRIES_def DELAY_BETWEEN_REQUESTS_def upt_rec session_get_def
  time_sleep_def f_write_def or_else_def dict_get_def name_or_def canonical_url_def
  quote_def quote_byte_def replace_space_def always_safe_def hex_digit_def Let_def
  strip_samples

lemma wiki_run:
  "fetch_and_write_ndjson wiki ['' Albert Einstein '', ''   '', ''zzzz''] ''en'' w0 =
     (Inr (),
      \<lparr>clock = 10,
       trace =
         [Get (ActionSearch ''en'' ''Albert Einstein''), Sleep 0.7,
          Get (ActionSearch ''en'' ''Albert Einstein''),
          Get (Extracts ''en'' (JStr ''Albert Einstein'')),
          Get (ParseSections ''en'' (JStr ''Albert Einstein'')), Sleep 1,
          Get (ActionSearch ''en'' ''zzzz''), Get (RestSearch ''en'' ''zzzz''),
          Get (Extracts ''en'' (JStr ''zzzz'')),
          Get (ParseSections ''en'' (JStr ''zzzz'')), Sleep 0.7,
          Get (ParseSections ''en'' (JStr ''zzzz'')), Sleep 1.4,
          Get (ParseSections ''en'' (JStr ''zzzz'')), Sleep 2.1, Sleep 1],
       data_txt =
         [\<lparr>obj_url = ''https://en.wikipedia.org/wiki/Albert_Einstein'',
           obj_title = JStr ''Albert Einstein'',
           obj_table_of_contents = [''Early life'', ''Career''],
           obj_raw_text = JStr ''Albert Einstein was...''\<rparr>,
          \<lparr>obj_url = ''https://en.wikipedia.org/wiki/zzzz'',
           obj_title = JStr ''zzzz'', obj_table_of_contents = [],
           obj_raw_text = JStr ''''\<rparr>]\<rparr>)"
  by (simp add: run_defs wiki_def w0_def)

lemma wiki_results:
  "run_results wiki ''en'' ['' Albert Einstein '', ''   '', ''zzzz''] (w0\<lparr>data_txt := []\<rparr>) =
     [(Inr (JStr ''Albert Einstein''),
       Inr (JStr ''Albert Einstein was...'', JStr ''Albert Einstein'', JNum 736),
       Inr [''Early life'', ''Career'']),
      (Inr JNull, Inr (JStr '''', JStr ''zzzz'', JNull), Inr [])]"
  by (simp add: run_defs wiki_def w0_def)

lemma wiki_results_again:
  "run_results wiki ''en'' ['' Albert Einstein '', ''   '', ''zzzz'']
     (snd (fetch_and_write_ndjson wiki ['' Albert Einstein '', ''   '', ''zzzz''] ''en'' w0)
        \<lparr>data_txt := []\<rparr>) =
     [(Inr (JStr ''Albert Einstein''),
       Inr (JStr ''Albert Einstein was...'', JStr ''Albert Einstein'', JNum 736),
       Inr [''Early life'', ''Career'']),
      (Inr JNull, Inr (JStr '''', JStr ''zzzz'', JNull), Inr [])]"
  unfolding wiki_run by (simp add: run_defs wiki_def)

lemma down_resolve_title:
  "resolve_title down ''zzzz'' ''en'' w0 =
     (Inl (ActionSearchFailed ''zzzz''),
      \<lparr>clock = 3,
       trace = [Get (ActionSearch ''en'' ''zzzz''), Sleep 0.7,
                Get (ActionSearch ''en'' ''zzzz''), Sleep 1.4,
                Get (ActionSearch ''en'' ''zzzz''), Sleep 2.1],
       data_txt = []\<rparr>)"
  by (simp add: run_defs down_def w0_def)

lemma wiki_resolve_title:
  "resolve_title wiki ''zzzz'' ''en'' w0 =
     (Inr JNull,
      \<lparr>clock = 3,
       trace = [Get (ActionSearch ''en'' ''zzzz''), Sleep 0.7,
                Get (ActionSearch ''en'' ''zzzz''), Get (RestSearch ''en'' ''zzzz'')],
       data_txt = []\<rparr>)"
  by (simp add: run_defs wiki_def w0_def)

section \<open>The title resolver\<close>

lemma no_rest_search_in_backoff:
  "filter is_rest_search (backoff (ActionSearch lang query) as) = []"
  by (induction as) simp_all

lemma resolve_title_action_search_sends_no_rest_search:
  "filter is_rest_search (trace (snd (resolve_title_action_search env query lang w))) =
   filter is_rest_search (trace w)"
  by (cases rule: resolve_title_action_search_cases [of env w lang query])
     (simp_all add: no_rest_search_in_backoff)

text \<open>
  C2. If the primary strategy (the action search) returns a non-empty title (a value that
  \<^verbatim>\<open>if title:\<close> takes for true; for a string, one that is not empty), \<open>resolve_title\<close>
  returns that title in the world the primary strategy left, in which no request of the
  secondary strategy (the REST search) has been sent; if the primary strategy returns
  \<^verbatim>\<open>None\<close> (or another value taken for false), \<open>resolve_title\<close> is the secondary strategy
  run from there, whatever it gives.
\<close>

theorem resolve_title_primary_then_secondary:
  "(\<forall>title w1.
      resolve_title_action_search env query lang w = (Inr title, w1) \<and> truthy title \<longrightarrow>
      resolve_title env query lang w = (Inr title, w1) \<and>
      filter is_rest_search (trace w1) = filter is_rest_search (trace w)) \<and>
   (\<forall>title w1.
      resolve_title_action_search env query lang w = (Inr title, w1) \<and>
      (title = JNull \<or> \<not> truthy title) \<longrightarrow>
      resolve_title env query lang w = resolve_title_rest_search env query lang w1)"
proof (intro conjI allI impI)
  fix title w1
  assume a: "resolve_title_action_search env query lang w = (Inr title, w1) \<and> truthy title"
  then show "resolve_title env query lang w = (Inr title, w1)"
    by (simp add: resolve_title_def)
  from a have "w1 = snd (resolve_title_action_search env query lang w)"
    by simp
  then show "filter is_rest_search (trace w1) = filter is_rest_search (trace w)"
    by (simp add: resolve_title_action_search_sends_no_rest_search)
next
  fix title w1
  assume "resolve_title_action_search env query lang w = (Inr title, w1) \<and>
      (title = JNull \<or> \<not> truthy title)"
  then have "resolve_title_action_search env query lang w = (Inr title, w1)"
    and "\<not> truthy title"
    by auto
  then show "resolve_title env query lang w = resolve_title_rest_search env query lang w1"
    by (simp add: resolve_title_def)
qed

text \<open>
  Both cases on the sample service: a title from the action search, and no hit in either
  search.
\<close>

theorem resolve_title_primary_then_secondary_witness:
  "resolve_title wiki ''Albert Einstein'' ''en'' w0 =
     (Inr (JStr ''Albert Einstein''),
      \<lparr>clock = 2,
       trace = [Get (ActionSearch ''en'' ''Albert Einstein''), Sleep 0.7,
                Get (ActionSearch ''en'' ''Albert Einstein'')],
       data_txt = []\<rparr>) \<and>
   resolve_title wiki ''zzzz'' ''en'' w0 =
     (Inr JNull,
      \<lparr>clock = 3,
       trace = [Get (ActionSearch ''en'' ''zzzz''), Sleep 0.7,
                Get (ActionSearch ''en'' ''zzzz''), Get (RestSearch ''en'' ''zzzz'')],
       data_txt = []\<rparr>)"
proof -
  let ?w1 = "\<lparr>clock = 2,
       trace = [Get (ActionSearch ''en'' ''Albert Einstein''), Sleep 0.7,
                Get (ActionSearch ''en'' ''Albert Einstein'')],
       data_txt = []\<rparr>"
  let ?w2 = "\<lparr>clock = 2,
       trace = [Get (ActionSearch ''en'' ''zzzz''), Sleep 0.7,
                Get (ActionSearch ''en'' ''zzzz'')],
       data_txt = []\<rparr>"
  have primary: "resolve_title_action_search wiki ''Albert Einstein'' ''en'' w0 =
      (Inr (JStr ''Albert Einstein''), ?w1) \<and> truthy (JStr ''Albert Einstein'')"
    by (simp add: resolve_title_action_search_def MAX_RETRIES_def wiki_def w0_def upt_rec
          session_get_def time_sleep_def dict_get_def)
  have no_hits: "resolve_title_action_search wiki ''zzzz'' ''en'' w0 = (Inr JNull, ?w2) \<and>
      (JNull = JNull \<or> \<not> truthy JNull)"
    by (simp add: resolve_title_action_search_def MAX_RETRIES_def wiki_def w0_def upt_rec
          session_get_def time_sleep_def)
  have secondary: "resolve_title_rest_search wiki ''zzzz'' ''en'' ?w2 =
      (Inr JNull,
       \<lparr>clock = 3,
        trace = [Get (ActionSearch ''en'' ''zzzz''), Sleep 0.7,
                 Get (ActionSearch ''en'' ''zzzz''), Get (RestSearch ''en'' ''zzzz'')],
        data_txt = []\<rparr>)"
    by (simp add: resolve_title_rest_search_def MAX_RETRIES_def wiki_def upt_rec
          session_get_def)
  from resolve_title_primary_then_secondary
         [of wiki "''Albert Einstein''" "''en''" w0, THEN conjunct1, THEN spec, THEN spec,
          THEN mp, OF primary]
  have "resolve_title wiki ''Albert Einstein'' ''en'' w0 = (Inr (JStr ''Albert Einstein''), ?w1)"
    by (rule conjunct1)
  moreover
  from resolve_title_primary_then_secondary
         [of wiki "''zzzz''" "''en''" w0, THEN conjunct2, THEN spec, THEN spec,
          THEN mp, OF no_hits]
  have "resolve_title wiki ''zzzz'' ''en'' w0 = resolve_title_rest_search wiki ''zzzz'' ''en'' ?w2" .
  ultimately show ?thesis
    using secondary by simp
qed

section \<open>The content fetcher\<close>

lemma fetch_plaintext_extract_raises_iff:
  "(\<exists>e. fst (fetch_plaintext_extract env title lang w) = Inl e) =
   (\<forall>i<MAX_RETRIES. extracts env (clock w + i) lang title = Raised)"
proof (cases rule: fetch_plaintext_extract_cases [of env w lang title])
  case exhausted
  then show ?thesis by simp
next
  case (decoded k pages)
  from decoded(1,3) have "\<not> (\<forall>i<MAX_RETRIES. extracts env (clock w + i) lang title = Raised)"
    by auto
  with decoded(4) show ?thesis
    by (simp split: list.split)
qed

lemma fetch_plaintext_extract_raises:
  "fst (fetch_plaintext_extract env title lang w) = Inl e \<Longrightarrow> e = ExtractFailed title"
  by (cases rule: fetch_plaintext_extract_cases [of env w lang title])
     (auto split: list.splits)

text \<open>
  C6. When an attempt within the ceiling is the first that does not fail and the decoded
  answer holds no page (the article is not found), \<open>fetch_plaintext_extract\<close> returns
  \<^verbatim>\<open>("", title, None)\<close> with the title it was given, as a normal result. It raises exactly
  when all \<open>MAX_RETRIES\<close> attempts fail, and then the error is the one of the extract.
\<close>

theorem fetch_plaintext_extract_not_found:
  "(\<forall>k. k < MAX_RETRIES \<and>
        (\<forall>i<k. extracts env (clock w + i) lang title = Raised) \<and>
        extracts env (clock w + k) lang title = Decoded [] \<longrightarrow>
        fst (fetch_plaintext_extract env title lang w) = Inr (JStr '''', title, JNull)) \<and>
   ((\<exists>e. fst (fetch_plaintext_extract env title lang w) = Inl e) =
    (\<forall>i<MAX_RETRIES. extracts env (clock w + i) lang title = Raised)) \<and>
   (\<forall>e. fst (fetch_plaintext_extract env title lang w) = Inl e \<longrightarrow> e = ExtractFailed title)"
proof (intro conjI allI impI)
  fix k
  assume a: "k < MAX_RETRIES \<and>
        (\<forall>i<k. extracts env (clock w + i) lang title = Raised) \<and>
        extracts env (clock w + k) lang title = Decoded []"
  then have len: "k < length [1..<MAX_RETRIES + 1]"
    by simp
  from a have before: "\<forall>i<k. extracts env (clock w + i) lang title = Raised"
    and at: "extracts env (clock w + k) lang title = Decoded []"
    by simp_all
  from extract_attempts_decoded [OF len before at]
  show "fst (fetch_plaintext_extract env title lang w) = Inr (JStr '''', title, JNull)"
    by (simp add: fetch_plaintext_extract_def)
next
  show "(\<exists>e. fst (fetch_plaintext_extract env title lang w) = Inl e) =
    (\<forall>i<MAX_RETRIES. extracts env (clock w + i) lang title = Raised)"
    by (rule fetch_plaintext_extract_raises_iff)
next
  fix e
  assume "fst (fetch_plaintext_extract env title lang w) = Inl e"
  then show "e = ExtractFailed title"
    by (rule fetch_plaintext_extract_raises)
qed

text \<open>
  An unknown title on the sample service, and any title on the service that is down.
\<close>

theorem fetch_plaintext_extract_not_found_witness:
  "fst (fetch_plaintext_extract wiki (JStr ''zzzz'') ''en'' w0) = Inr (JStr '''', JStr ''zzzz'', JNull) \<and>
   fst (fetch_plaintext_extract down (JStr ''zzzz'') ''en'' w0) = Inl (ExtractFailed (JStr ''zzzz''))"
proof -
  have found: "(0::nat) < MAX_RETRIES \<and>
      (\<forall>i<0. extracts wiki (clock w0 + i) ''en'' (JStr ''zzzz'') = Raised) \<and>
      extracts wiki (clock w0 + 0) ''en'' (JStr ''zzzz'') = Decoded []"
    by (simp add: MAX_RETRIES_def wiki_def)
  have outage: "\<forall>i<MAX_RETRIES. extracts down (clock w0 + i) ''en'' (JStr ''zzzz'') = Raised"
    by (simp add: down_def)
  from fetch_plaintext_extract_not_found [of wiki w0 "''en''" "JStr ''zzzz''"] found
  have "fst (fetch_plaintext_extract wiki (JStr ''zzzz'') ''en'' w0) = Inr (JStr '''', JStr ''zzzz'', JNull)"
    by blast
  moreover
  from fetch_plaintext_extract_not_found [of down w0 "''en''" "JStr ''zzzz''"] outage
  obtain e where "fst (fetch_plaintext_extract down (JStr ''zzzz'') ''en'' w0) = Inl e"
    by blast
  with fetch_plaintext_extract_not_found [of down w0 "''en''" "JStr ''zzzz''"]
  have "fst (fetch_plaintext_extract down (JStr ''zzzz'') ''en'' w0) = Inl (ExtractFailed (JStr ''zzzz''))"
    by blast
  ultimately show ?thesis by simp
qed

section \<open>The loop body\<close>

lemma resolve_title_action_search_data_txt:
  "data_txt (snd (resolve_title_action_search env query lang w)) = data_txt w"
  by (cases rule: resolve_title_action_search_cases [of env w lang query]) simp_all

lemma resolve_title_rest_search_data_txt:
  "data_txt (snd (resolve_title_rest_search env query lang w)) = data_txt w"
  by (cases rule: resolve_title_rest_search_cases [of env w lang query]) simp_all

lemma resolve_title_data_txt:
  "data_txt (snd (resolve_title env query lang w)) = data_txt w"
proof (cases "resolve_title_action_search env query lang w")
  case (Pair res w1)
  with resolve_title_action_search_data_txt [of env query lang w]
  have w1: "data_txt w1 = data_txt w"
    by simp
  from Pair w1 resolve_title_rest_search_data_txt [of env query lang w1] show ?thesis
    by (simp add: resolve_title_def split: sum.split)
qed

lemma fetch_plaintext_extract_data_txt:
  "data_txt (snd (fetch_plaintext_extract env title lang w)) = data_txt w"
  by (cases rule: fetch_plaintext_extract_cases [of env w lang title]) simp_all

lemma fetch_sections_data_txt:
  "data_txt (snd (fetch_sections env title lang w)) = data_txt w"
  by (cases rule: fetch_sections_cases [of env w lang title]) simp_all

text \<open>
  The loop body appends the line built from the results of its steps, if
  \<open>canonical_url\<close> lets it, and nothing else; it raises what \<open>canonical_url\<close> raises, or
  \<^verbatim>\<open>TypeError\<close> after the line when the text has no length.
\<close>

lemma process_query_unfold:
  "process_query env lang query w =
     (case record_of lang query (step_results env lang query w) of
        Inl e \<Rightarrow> Inl e
      | Inr obj \<Rightarrow> if sized (obj_raw_text obj) then Inr () else Inl TypeError,
      snd (process_query env lang query w)) \<and>
   data_txt (snd (process_query env lang query w)) =
     data_txt w @ written (record_of lang query (step_results env lang query w))"
proof -
  obtain res w1 where r: "resolve_title env query lang w = (res, w1)"
    by (cases "resolve_title env query lang w")
  let ?title = "or_else (case res of Inl e \<Rightarrow> JNull | Inr t \<Rightarrow> t) (JStr query)"
  obtain ext w2 where e: "fetch_plaintext_extract env ?title lang w1 = (ext, w2)"
    by (cases "fetch_plaintext_extract env ?title lang w1")
  obtain raw norm_title pageid where
    v: "(case ext of Inl e \<Rightarrow> (JStr [], ?title, JNull) | Inr v \<Rightarrow> v) = (raw, norm_title, pageid)"
    by (cases "case ext of Inl e \<Rightarrow> (JStr [], ?title, JNull) | Inr v \<Rightarrow> v")
  obtain sec w3 where s: "fetch_sections env norm_title lang w2 = (sec, w3)"
    by (cases "fetch_sections env norm_title lang w2")
  from r resolve_title_data_txt [of env query lang w] have "data_txt w1 = data_txt w"
    by simp
  moreover from e fetch_plaintext_extract_data_txt [of env ?title lang w1]
  have "data_txt w2 = data_txt w1"
    by simp
  moreover from s fetch_sections_data_txt [of env norm_title lang w2]
  have "data_txt w3 = data_txt w2"
    by simp
  ultimately have "data_txt w3 = data_txt w"
    by simp
  with r e v s show ?thesis
    by (simp add: process_query_def step_results_def record_of_def written_def
          time_sleep_def f_write_def split: sum.split)
qed

lemma process_query_outcome:
  "fst (process_query env lang query w) =
     (case record_of lang query (step_results env lang query w) of
        Inl e \<Rightarrow> Inl e
      | Inr obj \<Rightarrow> if sized (obj_raw_text obj) then Inr () else Inl TypeError)"
  using process_query_unfold [of env lang query w, THEN conjunct1]
  by (metis fst_conv)

lemma process_query_data_txt:
  "data_txt (snd (process_query env lang query w)) =
     data_txt w @ written (record_of lang query (step_results env lang query w))"
  using process_query_unfold [of env lang query w] by (rule conjunct2)

section \<open>The loop over the keywords\<close>

lemma keyword_loop_append:
  "keyword_loop env lang (xs @ ys) w =
     (case keyword_loop env lang xs w of
        (Inl e, w') \<Rightarrow> (Inl e, w')
      | (Inr u, w') \<Rightarrow> keyword_loop env lang ys w')"
  by (induction xs arbitrary: w) (simp_all add: Let_def split: prod.split sum.split)

lemma keyword_loop_data_txt:
  "data_txt (snd (keyword_loop env lang df w)) =
   data_txt w @ concat (map2 (\<lambda>query r. written (record_of lang query r))
                          (filter (\<lambda>q. q \<noteq> []) (map strip df))
                          (run_results env lang df w))"
proof (induction df arbitrary: w)
  case Nil
  then show ?case by simp
next
  case (Cons keyword df)
  show ?case
  proof (cases "strip keyword = []")
    case True
    with Cons.IH [of w] show ?thesis by simp
  next
    case False
    obtain r w' where pq: "process_query env lang (strip keyword) w = (r, w')"
      by (cases "process_query env lang (strip keyword) w")
    with process_query_data_txt [of env lang "strip keyword" w]
    have w': "data_txt w' =
        data_txt w @ written (record_of lang (strip keyword)
                                (step_results env lang (strip keyword) w))"
      by simp
    show ?thesis
    proof (cases r)
      case (Inl e)
      with pq w' False show ?thesis by simp
    next
      case (Inr u)
      with pq w' False Cons.IH [of w'] show ?thesis by simp
    qed
  qed
qed



text \<open>
  C1. The loop body guards its three steps with \<^verbatim>\<open>try\<close>, but not the statements after
  them, so a failure in those does end the run. On the sample service whose extract
  carries \<^verbatim>\<open>"title": null\<close>, \<^verbatim>\<open>page.get("title", title)\<close> is \<^verbatim>\<open>None\<close> and \<open>canonical_url\<close>
  raises \<^verbatim>\<open>AttributeError\<close> for the first keyword: the run ends with that exception,
  \<^verbatim>\<open>data.txt\<close> holds no line although both keywords are non-empty, and the second keyword
  is never asked about.
\<close>

theorem null_title_ends_the_run:
  "fetch_and_write_ndjson null_title [''Albert Einstein'', ''zzzz''] ''en'' w0 =
     (Inl AttributeError,
      \<lparr>clock = 3,
       trace =
         [Get (ActionSearch ''en'' ''Albert Einstein''),
          Get (Extracts ''en'' (JStr ''Albert Einstein'')),
          Get (ParseSections ''en'' JNull)],
       data_txt = []\<rparr>) \<and>
   filter (\<lambda>q. q \<noteq> []) (map strip [''Albert Einstein'', ''zzzz'']) =
     [''Albert Einstein'', ''zzzz'']"
  by (simp add: run_defs null_title_def w0_def)

text \<open>
  The same with \<^verbatim>\<open>len(text)\<close> in the progress message: where the extract is a number, the
  line of the first keyword is written, then \<^verbatim>\<open>TypeError\<close> ends the run before the second.
\<close>

lemma numeric_extract_ends_the_run:
  "fetch_and_write_ndjson numeric_extract [''Albert Einstein'', ''zzzz''] ''en'' w0 =
     (Inl TypeError,
      \<lparr>clock = 3,
       trace =
         [Get (ActionSearch ''en'' ''Albert Einstein''),
          Get (Extracts ''en'' (JStr ''Albert Einstein'')),
          Get (ParseSections ''en'' (JStr ''Albert Einstein''))],
       data_txt =
         [\<lparr>obj_url = ''https://en.wikipedia.org/wiki/Albert_Einstein'',
           obj_title = JStr ''Albert Einstein'', obj_table_of_contents = [],
           obj_raw_text = JNum 5\<rparr>]\<rparr>)"
  by (simp add: run_defs numeric_extract_def w0_def)

text \<open>
  A run that ends without an exception has written one line for each keyword that is not
  blank.
\<close>

lemma keyword_loop_lines:
  "fst (keyword_loop env lang df w) = Inr () \<Longrightarrow>
   length (data_txt (snd (keyword_loop env lang df w))) =
     length (data_txt w) + length (filter (\<lambda>q. q \<noteq> []) (map strip df))"
proof (induction df arbitrary: w)
  case Nil
  then show ?case by simp
next
  case (Cons keyword df)
  show ?case
  proof (cases "strip keyword = []")
    case True
    with Cons.prems Cons.IH [of w] show ?thesis by simp
  next
    case False
    obtain r w' where pq: "process_query env lang (strip keyword) w = (r, w')"
      by (cases "process_query env lang (strip keyword) w")
    with Cons.prems False have r: "r = Inr ()"
      by (cases r) simp_all
    with pq process_query_outcome [of env lang "strip keyword" w]
    obtain obj where "record_of lang (strip keyword)
        (step_results env lang (strip keyword) w) = Inr obj"
      by (cases "record_of lang (strip keyword) (step_results env lang (strip keyword) w)")
         simp_all
    with pq process_query_data_txt [of env lang "strip keyword" w]
    have "length (data_txt w') = Suc (length (data_txt w))"
      by (simp add: written_def)
    with Cons.prems Cons.IH [of w'] pq r False show ?thesis
      by simp
  qed
qed

lemma normal_run_one_line_each:
  "fst (fetch_and_write_ndjson env df lang w) = Inr () \<Longrightarrow>
   length (data_txt (snd (fetch_and_write_ndjson env df lang w))) =
     length (filter (\<lambda>q. q \<noteq> []) (map strip df))"
  using keyword_loop_lines [of env lang df "w\<lparr>data_txt := []\<rparr>"]
  by (simp add: fetch_and_write_ndjson_def)

text \<open>
  C8. An entry whose keyword is empty after stripping leaves the world as it is (no
  line, no request, no sleep) and the loop goes on with the next entry: wherever the
  entry stands in the input, the run is the run of the input without it.
\<close>

theorem blank_keyword_skipped:
  "strip keyword = [] \<Longrightarrow>
   keyword_loop env lang (keyword # df) w = keyword_loop env lang df w \<and>
   fetch_and_write_ndjson env (xs @ keyword # ys) lang w =
     fetch_and_write_ndjson env (xs @ ys) lang w"
  by (simp add: fetch_and_write_ndjson_def keyword_loop_append split: prod.split sum.split)

text \<open>
  The blank second keyword of the sample input makes no difference to the run.
\<close>

theorem blank_keyword_skipped_witness:
  "strip ''   '' = [] \<and>
   fetch_and_write_ndjson wiki ['' Albert Einstein '', ''   '', ''zzzz''] ''en'' w0 =
     fetch_and_write_ndjson wiki ['' Albert Einstein '', ''zzzz''] ''en'' w0"
  using blank_keyword_skipped [of "''   ''" wiki "''en''" "[]" w0 "['' Albert Einstein '']" "[''zzzz'']"]
  by (simp add: strip_samples)



lemma keyword_loop_outcome:
  "run_results env lang df w = run_results env' lang df w' \<Longrightarrow>
   fst (keyword_loop env lang df w) = fst (keyword_loop env' lang df w')"
proof (induction df arbitrary: w w')
  case Nil
  then show ?case by simp
next
  case (Cons keyword df)
  show ?case
  proof (cases "strip keyword = []")
    case True
    with Cons.prems Cons.IH [of w w'] show ?thesis by simp
  next
    case False
    let ?q = "strip keyword"
    obtain r w1 where pq: "process_query env lang ?q w = (r, w1)"
      by (cases "process_query env lang ?q w")
    obtain r' w1' where pq': "process_query env' lang ?q w' = (r', w1')"
      by (cases "process_query env' lang ?q w'")
    from Cons.prems False
    have step: "step_results env lang ?q w = step_results env' lang ?q w'"
      by (simp add: Let_def)
    with pq pq' process_query_outcome [of env lang ?q w]
      process_query_outcome [of env' lang ?q w']
    have same: "r = r'"
      by simp
    from Cons.prems False pq pq'
    have tails: "(case r of Inl e \<Rightarrow> [] | Inr u \<Rightarrow> run_results env lang df w1) =
        (case r' of Inl e \<Rightarrow> [] | Inr u \<Rightarrow> run_results env' lang df w1')"
      by (simp add: Let_def)
    show ?thesis
    proof (cases r)
      case (Inl e)
      with same have r': "r' = Inl e"
        by simp
      from pq pq' Inl r' False show ?thesis
        by simp
    next
      case (Inr u)
      with same have r': "r' = Inr u"
        by simp
      from tails Inr r' have "run_results env lang df w1 = run_results env' lang df w1'"
        by simp
      from Cons.IH [OF this] pq pq' Inr r' False show ?thesis
        by simp
    qed
  qed
qed

text \<open>
  C9. If the three steps return the same results for the keywords of two runs over the
  same input (whatever the retries behind the results, whatever worlds the runs start
  in, whatever is in \<^verbatim>\<open>data.txt\<close> before), the two runs leave the same lines in
  \<^verbatim>\<open>data.txt\<close> and end the same way; and what \<^verbatim>\<open>data.txt\<close> held before a run has no part
  in what it holds after: the run overwrites it.
\<close>

theorem rerun_reproduces_and_overwrites:
  "(run_results env lang df (wa\<lparr>data_txt := []\<rparr>) =
      run_results env' lang df (wb\<lparr>data_txt := []\<rparr>) \<longrightarrow>
    data_txt (snd (fetch_and_write_ndjson env df lang wa)) =
      data_txt (snd (fetch_and_write_ndjson env' df lang wb)) \<and>
    fst (fetch_and_write_ndjson env df lang wa) =
      fst (fetch_and_write_ndjson env' df lang wb)) \<and>
   fetch_and_write_ndjson env df lang (wa\<lparr>data_txt := old\<rparr>) =
     fetch_and_write_ndjson env df lang wa"
proof (intro conjI impI)
  assume same: "run_results env lang df (wa\<lparr>data_txt := []\<rparr>) =
      run_results env' lang df (wb\<lparr>data_txt := []\<rparr>)"
  then show "data_txt (snd (fetch_and_write_ndjson env df lang wa)) =
      data_txt (snd (fetch_and_write_ndjson env' df lang wb))"
    by (simp add: fetch_and_write_ndjson_def keyword_loop_data_txt)
  from same show "fst (fetch_and_write_ndjson env df lang wa) =
      fst (fetch_and_write_ndjson env' df lang wb)"
    unfolding fetch_and_write_ndjson_def by (rule keyword_loop_outcome)
next
  show "fetch_and_write_ndjson env df lang (wa\<lparr>data_txt := old\<rparr>) =
     fetch_and_write_ndjson env df lang wa"
    by (simp add: fetch_and_write_ndjson_def)
qed

text \<open>
  The sample run twice in a row: the second run needs no retry, its steps return what they
  returned in the first, and \<^verbatim>\<open>data.txt\<close> holds the same two lines again, not four.
\<close>

theorem rerun_reproduces_and_overwrites_witness:
  "data_txt (snd (fetch_and_write_ndjson wiki ['' Albert Einstein '', ''   '', ''zzzz''] ''en''
     (snd (fetch_and_write_ndjson wiki ['' Albert Einstein '', ''   '', ''zzzz''] ''en'' w0)))) =
   data_txt (snd (fetch_and_write_ndjson wiki ['' Albert Einstein '', ''   '', ''zzzz''] ''en'' w0))"
proof -
  let ?df = "['' Albert Einstein '', ''   '', ''zzzz'']"
  let ?w1 = "snd (fetch_and_write_ndjson wiki ?df ''en'' w0)"
  have "run_results wiki ''en'' ?df (w0\<lparr>data_txt := []\<rparr>) =
        run_results wiki ''en'' ?df (?w1\<lparr>data_txt := []\<rparr>)"
    by (simp only: wiki_results wiki_results_again)
  with rerun_reproduces_and_overwrites [of wiki "''en''" ?df w0 wiki ?w1]
  have "data_txt ?w1 = data_txt (snd (fetch_and_write_ndjson wiki ?df ''en'' ?w1))"
    by blast
  then show ?thesis
    by (rule sym)
qed

section \<open>The outline fetcher\<close>

lemma collect_toc_filter:
  "collect_toc sections toc =
   toc @ filter (\<lambda>name. name \<noteq> [])
           (map (\<lambda>s. strip (name_or (section_line s) (name_or (section_anchor s) '''')))
              sections)"
  by (induction sections arbitrary: toc) (simp_all add: Let_def)

lemma collect_toc_names:
  "name \<in> set (collect_toc sections []) \<Longrightarrow> name \<noteq> [] \<and> strip name = name"
  by (auto simp: collect_toc_filter strip_strip)

lemma fetch_sections_returns:
  "(\<exists>k sections. k < MAX_RETRIES \<and>
      parse_sections env (clock w + k) lang title = Decoded sections \<and>
      fst (fetch_sections env title lang w) = Inr (collect_toc sections [])) \<or>
   fst (fetch_sections env title lang w) = Inr []"
proof (cases rule: fetch_sections_cases [of env w lang title])
  case exhausted
  then show ?thesis by simp
next
  case (decoded k sections)
  then have "k < MAX_RETRIES \<and>
      parse_sections env (clock w + k) lang title = Decoded sections \<and>
      fst (fetch_sections env title lang w) = Inr (collect_toc sections [])"
    by simp
  then show ?thesis by blast
qed

text \<open>
  C10. Every element of the list that \<open>fetch_sections\<close> returns is a non-empty string
  with no whitespace left at either end. The list is empty, or it is made from the
  sections of a decoded answer: each section gives its \<^verbatim>\<open>line\<close>, or its \<^verbatim>\<open>anchor\<close> when the
  \<^verbatim>\<open>line\<close> is absent (or empty), or \<^verbatim>\<open>""\<close> when both are; the value is stripped, and the
  sections whose value is then empty are left out.
\<close>

theorem table_of_contents_entries_nonempty:
  "(\<forall>toc. fst (fetch_sections env title lang w) = Inr toc \<longrightarrow>
      (\<forall>name \<in> set toc. name \<noteq> [] \<and> strip name = name)) \<and>
   ((\<exists>k sections. k < MAX_RETRIES \<and>
       parse_sections env (clock w + k) lang title = Decoded sections \<and>
       fst (fetch_sections env title lang w) = Inr (collect_toc sections [])) \<or>
    fst (fetch_sections env title lang w) = Inr []) \<and>
   collect_toc sections [] =
     filter (\<lambda>name. name \<noteq> [])
       (map (\<lambda>s. strip (case section_line s of
                          None \<Rightarrow> (case section_anchor s of None \<Rightarrow> '''' | Some a \<Rightarrow> a)
                        | Some l \<Rightarrow>
                            if l \<noteq> [] then l
                            else (case section_anchor s of None \<Rightarrow> '''' | Some a \<Rightarrow> a)))
          sections)"
proof (intro conjI allI impI ballI)
  fix toc name
  assume "fst (fetch_sections env title lang w) = Inr toc" and "name \<in> set toc"
  with fetch_sections_returns [of env w lang title]
  have "\<exists>sections. name \<in> set (collect_toc sections [])"
    by auto
  then show "name \<noteq> []" and "strip name = name"
    using collect_toc_names by blast+
next
  show "(\<exists>k sections. k < MAX_RETRIES \<and>
       parse_sections env (clock w + k) lang title = Decoded sections \<and>
       fst (fetch_sections env title lang w) = Inr (collect_toc sections [])) \<or>
    fst (fetch_sections env title lang w) = Inr []"
    by (rule fetch_sections_returns)
next
  have "name_or (section_line s) (name_or (section_anchor s) '''') =
        (case section_line s of
           None \<Rightarrow> (case section_anchor s of None \<Rightarrow> '''' | Some a \<Rightarrow> a)
         | Some l \<Rightarrow>
             if l \<noteq> [] then l
             else (case section_anchor s of None \<Rightarrow> '''' | Some a \<Rightarrow> a))" for s
    by (simp add: name_or_def split: option.split)
  then show "collect_toc sections [] =
     filter (\<lambda>name. name \<noteq> [])
       (map (\<lambda>s. strip (case section_line s of
                          None \<Rightarrow> (case section_anchor s of None \<Rightarrow> '''' | Some a \<Rightarrow> a)
                        | Some l \<Rightarrow>
                            if l \<noteq> [] then l
                            else (case section_anchor s of None \<Rightarrow> '''' | Some a \<Rightarrow> a)))
          sections)"
    by (simp add: collect_toc_filter)
qed

text \<open>
  The outline of the sample article: a \<^verbatim>\<open>line\<close>, an \<^verbatim>\<open>anchor\<close> standing in for an absent \<^verbatim>\<open>line\<close>
  and stripped, and a section dropped because its \<^verbatim>\<open>line\<close> is blank.
\<close>

theorem table_of_contents_entries_nonempty_witness:
  "fst (fetch_sections wiki (JStr ''Albert Einstein'') ''en'' w0) = Inr [''Early life'', ''Career''] \<and>
   ''Early life'' \<in> set [''Early life'', ''Career''] \<and>
   ''Early life'' \<noteq> [] \<and> strip ''Early life'' = ''Early life''"
proof -
  have ret: "fst (fetch_sections wiki (JStr ''Albert Einstein'') ''en'' w0) =
      Inr [''Early life'', ''Career'']"
    by (simp add: run_defs wiki_def w0_def)
  have mem: "''Early life'' \<in> set [''Early life'', ''Career'']"
    by simp
  from table_of_contents_entries_nonempty [of wiki "JStr ''Albert Einstein''" "''en''" w0] ret
  have "\<forall>name \<in> set [''Early life'', ''Career'']. name \<noteq> [] \<and> strip name = name"
    by blast
  with mem have "''Early life'' \<noteq> [] \<and> strip ''Early life'' = ''Early life''"
    by blast
  with ret mem show ?thesis by simp
qed

section \<open>The outline step in the loop body\<close>












lemma lines_added_process_query:
  "lines_added w (snd (process_query env lang query w)) =
   written (record_of lang query (step_results env lang query w))"
  by (simp add: lines_added_def process_query_data_txt)



section \<open>The effective title\<close>

lemma backoff_starts_with_get:
  "0 < n \<Longrightarrow> \<exists>evs. backoff r [1..<n + 1] = Get r # evs"
  by (subst upt_rec) simp

lemma fetch_plaintext_extract_first_event:
  "\<exists>evs. trace (snd (fetch_plaintext_extract env title lang w)) =
     trace w @ Get (Extracts lang title) # evs"
proof (cases rule: fetch_plaintext_extract_cases [of env w lang title])
  case exhausted
  from backoff_starts_with_get [of MAX_RETRIES "Extracts lang title"]
  obtain evs where "backoff (Extracts lang title) [1..<MAX_RETRIES + 1] =
      Get (Extracts lang title) # evs"
    by (auto simp: MAX_RETRIES_def)
  with exhausted(2) show ?thesis by simp
next
  case (decoded k pages)
  show ?thesis
  proof (cases "k = 0")
    case True
    with decoded(4) show ?thesis by simp
  next
    case False
    with backoff_starts_with_get [of k "Extracts lang title"]
    obtain evs where "backoff (Extracts lang title) [1..<k + 1] =
        Get (Extracts lang title) # evs"
      by auto
    with decoded(4) show ?thesis by simp
  qed
qed

lemma fetch_sections_extends_trace:
  "\<exists>evs. trace (snd (fetch_sections env title lang w)) = trace w @ evs"
  using fetch_sections_trace [of env w lang title] by blast

text \<open>
  C5. If \<open>resolve_title\<close> raises or returns \<^verbatim>\<open>None\<close>, the loop body goes on with the query
  as the title: the next request it sends is the extract request for the query, the
  result of its extract step is that of \<open>fetch_plaintext_extract\<close> for the query, and the
  line it writes has the title and the text the extract returns for the query (no line
  if that title is not a string), or the query itself and the empty text when the
  extract raises.
\<close>

theorem unresolved_query_is_effective_title:
  "\<forall>res w1.
     resolve_title env query lang w = (res, w1) \<and> (res = Inr JNull \<or> (\<exists>e. res = Inl e)) \<longrightarrow>
     (\<exists>evs. trace (snd (process_query env lang query w)) =
        trace w1 @ Get (Extracts lang (JStr query)) # evs) \<and>
     fst (snd (step_results env lang query w)) =
       fst (fetch_plaintext_extract env (JStr query) lang w1) \<and>
     map obj_title (lines_added w (snd (process_query env lang query w))) =
       (case fst (fetch_plaintext_extract env (JStr query) lang w1) of
          Inl e \<Rightarrow> [JStr query]
        | Inr (text, norm_title, pageid) \<Rightarrow>
            (case canonical_url lang norm_title of Inl e \<Rightarrow> [] | Inr url \<Rightarrow> [norm_title])) \<and>
     map obj_raw_text (lines_added w (snd (process_query env lang query w))) =
       (case fst (fetch_plaintext_extract env (JStr query) lang w1) of
          Inl e \<Rightarrow> [JStr '''']
        | Inr (text, norm_title, pageid) \<Rightarrow>
            (case canonical_url lang norm_title of Inl e \<Rightarrow> [] | Inr url \<Rightarrow> [text]))"
proof (intro allI impI)
  fix res w1
  assume a: "resolve_title env query lang w = (res, w1) \<and>
    (res = Inr JNull \<or> (\<exists>e. res = Inl e))"
  then have r: "resolve_title env query lang w = (res, w1)"
    and title: "or_else (case res of Inl e \<Rightarrow> JNull | Inr t \<Rightarrow> t) (JStr query) = JStr query"
    by (auto simp: or_else_def)
  obtain ext w2 where e: "fetch_plaintext_extract env (JStr query) lang w1 = (ext, w2)"
    by (cases "fetch_plaintext_extract env (JStr query) lang w1")
  obtain raw norm_title pageid where
    v: "(case ext of Inl e \<Rightarrow> (JStr [], JStr query, JNull) | Inr v \<Rightarrow> v) =
        (raw, norm_title, pageid)"
    by (cases "case ext of Inl e \<Rightarrow> (JStr [], JStr query, JNull) | Inr v \<Rightarrow> v")
  obtain sec w3 where s: "fetch_sections env norm_title lang w2 = (sec, w3)"
    by (cases "fetch_sections env norm_title lang w2")
  from fetch_plaintext_extract_first_event [of env "JStr query" lang w1] e
  obtain evs2 where t2: "trace w2 = trace w1 @ Get (Extracts lang (JStr query)) # evs2"
    by auto
  from fetch_sections_extends_trace [of env norm_title lang w2] s
  obtain evs3 where t3: "trace w3 = trace w2 @ evs3"
    by auto
  from r title e v s
  have "\<exists>evs. trace (snd (process_query env lang query w)) = trace w3 @ evs"
    by (auto simp: process_query_def time_sleep_def f_write_def Let_def split: sum.split)
  with t2 t3 have events: "\<exists>evs. trace (snd (process_query env lang query w)) =
        trace w1 @ Get (Extracts lang (JStr query)) # evs"
    by auto
  from r title e v s have results: "step_results env lang query w = (res, ext, sec)"
    by (simp add: step_results_def)
  from v title
  have v': "(case ext of
               Inl e \<Rightarrow> (JStr [],
                          or_else (case res of Inl e \<Rightarrow> JNull | Inr t \<Rightarrow> t) (JStr query),
                          JNull)
             | Inr v \<Rightarrow> v) = (raw, norm_title, pageid)"
    by (simp only:)
  from results v'
  have line: "lines_added w (snd (process_query env lang query w)) =
      (case canonical_url lang norm_title of
         Inl e \<Rightarrow> []
       | Inr url \<Rightarrow> [\<lparr>obj_url = url, obj_title = norm_title,
                        obj_table_of_contents = (case sec of Inl e \<Rightarrow> [] | Inr t \<Rightarrow> t),
                        obj_raw_text = raw\<rparr>])"
    by (simp add: lines_added_process_query record_of_def written_def split: sum.split)
  have titles: "map obj_title (lines_added w (snd (process_query env lang query w))) =
       (case ext of
          Inl e \<Rightarrow> [JStr query]
        | Inr (text, norm_title, pageid) \<Rightarrow>
            (case canonical_url lang norm_title of Inl e \<Rightarrow> [] | Inr url \<Rightarrow> [norm_title]))"
    using v by (auto simp: line canonical_url_def split: sum.splits)
  have texts: "map obj_raw_text (lines_added w (snd (process_query env lang query w))) =
       (case ext of
          Inl e \<Rightarrow> [JStr '''']
        | Inr (text, norm_title, pageid) \<Rightarrow>
            (case canonical_url lang norm_title of Inl e \<Rightarrow> [] | Inr url \<Rightarrow> [text]))"
    using v by (auto simp: line canonical_url_def split: sum.splits)
  from events results titles texts e
  show "(\<exists>evs. trace (snd (process_query env lang query w)) =
        trace w1 @ Get (Extracts lang (JStr query)) # evs) \<and>
     fst (snd (step_results env lang query w)) =
       fst (fetch_plaintext_extract env (JStr query) lang w1) \<and>
     map obj_title (lines_added w (snd (process_query env lang query w))) =
       (case fst (fetch_plaintext_extract env (JStr query) lang w1) of
          Inl e \<Rightarrow> [JStr query]
        | Inr (text, norm_title, pageid) \<Rightarrow>
            (case canonical_url lang norm_title of Inl e \<Rightarrow> [] | Inr url \<Rightarrow> [norm_title])) \<and>
     map obj_raw_text (lines_added w (snd (process_query env lang query w))) =
       (case fst (fetch_plaintext_extract env (JStr query) lang w1) of
          Inl e \<Rightarrow> [JStr '''']
        | Inr (text, norm_title, pageid) \<Rightarrow>
            (case canonical_url lang norm_title of Inl e \<Rightarrow> [] | Inr url \<Rightarrow> [text]))"
    by simp
qed

text \<open>
  Resolution raises on the service that is down and returns \<^verbatim>\<open>None\<close> on the sample service; in
  both runs the line carries the query as its title.
\<close>

theorem unresolved_query_is_effective_title_witness:
  "fst (resolve_title down ''zzzz'' ''en'' w0) = Inl (ActionSearchFailed ''zzzz'') \<and>
   map obj_title (lines_added w0 (snd (process_query down ''en'' ''zzzz'' w0))) =
     [JStr ''zzzz''] \<and>
   fst (resolve_title wiki ''zzzz'' ''en'' w0) = Inr JNull \<and>
   map obj_title (lines_added w0 (snd (process_query wiki ''en'' ''zzzz'' w0))) =
     [JStr ''zzzz'']"
proof -
  let ?w1 = "snd (resolve_title down ''zzzz'' ''en'' w0)"
  let ?w2 = "snd (resolve_title wiki ''zzzz'' ''en'' w0)"
  have raised: "resolve_title down ''zzzz'' ''en'' w0 = (Inl (ActionSearchFailed ''zzzz''), ?w1) \<and>
      (Inl (ActionSearchFailed ''zzzz'') = Inr JNull \<or>
       (\<exists>e. (Inl (ActionSearchFailed ''zzzz'') :: exn + json) = Inl e))"
    by (simp add: down_resolve_title)
  have absent: "resolve_title wiki ''zzzz'' ''en'' w0 = (Inr JNull, ?w2) \<and>
      ((Inr JNull :: exn + json) = Inr JNull \<or> (\<exists>e. Inr JNull = Inl e))"
    by (simp add: wiki_resolve_title)
  have extract_down: "fst (fetch_plaintext_extract down (JStr ''zzzz'') ''en'' ?w1) =
      Inl (ExtractFailed (JStr ''zzzz''))"
    by (simp add: down_resolve_title) (simp add: run_defs down_def)
  have extract_wiki: "fst (fetch_plaintext_extract wiki (JStr ''zzzz'') ''en'' ?w2) =
      Inr (JStr '''', JStr ''zzzz'', JNull)"
    by (simp add: wiki_resolve_title) (simp add: run_defs wiki_def)
  from unresolved_query_is_effective_title
         [of down "''zzzz''" "''en''" w0, THEN spec, THEN spec, THEN mp, OF raised]
  have "map obj_title (lines_added w0 (snd (process_query down ''en'' ''zzzz'' w0))) =
       (case fst (fetch_plaintext_extract down (JStr ''zzzz'') ''en'' ?w1) of
          Inl e \<Rightarrow> [JStr ''zzzz'']
        | Inr (text, norm_title, pageid) \<Rightarrow>
            (case canonical_url ''en'' norm_title of Inl e \<Rightarrow> [] | Inr url \<Rightarrow> [norm_title]))"
    by blast
  with extract_down
  have one: "map obj_title (lines_added w0 (snd (process_query down ''en'' ''zzzz'' w0))) =
      [JStr ''zzzz'']"
    by simp
  from unresolved_query_is_effective_title
         [of wiki "''zzzz''" "''en''" w0, THEN spec, THEN spec, THEN mp, OF absent]
  have "map obj_title (lines_added w0 (snd (process_query wiki ''en'' ''zzzz'' w0))) =
       (case fst (fetch_plaintext_extract wiki (JStr ''zzzz'') ''en'' ?w2) of
          Inl e \<Rightarrow> [JStr ''zzzz'']
        | Inr (text, norm_title, pageid) \<Rightarrow>
            (case canonical_url ''en'' norm_title of Inl e \<Rightarrow> [] | Inr url \<Rightarrow> [norm_title]))"
    by blast
  with extract_wiki
  have two: "map obj_title (lines_added w0 (snd (process_query wiki ''en'' ''zzzz'' w0))) =
      [JStr ''zzzz'']"
    by (simp add: canonical_url_def)
  from one two show ?thesis
    by (simp add: down_resolve_title wiki_resolve_title)
qed

end
